theory Spec2Isabelle
  imports Main "HOL-Library.Sublist" "HOL-Library.AList"
begin

section \<open>Python values of the cihai application\<close>

text \<open>
  Exceptions are values.  An \<open>AttributeError\<close> carries the kind of object on which the
  lookup was made and the attribute that was missing; \<open>ExternalError\<close> wraps whatever
  code outside \<^verbatim>\<open>cihai/core.py\<close> and \<^verbatim>\<open>cihai/cli.py\<close> raises (an import that fails, a
  constructor, the database layer, the configuration reader).
\<close>

datatype error =
    AttributeError string string
  | TypeError string
  | ValueError string
  | CihaiException string
  | UsageError string
  | ExternalError string

text \<open>
  A dynamically loaded class, as far as \<^verbatim>\<open>core.py\<close> observes it: its name, whether it
  mixes in \<^verbatim>\<open>extend.SQLAlchemyMixin\<close>, whether it offers \<^verbatim>\<open>add_plugin\<close>, and the
  exception (if any) that calling it with no arguments raises.
\<close>

datatype cls = Class (cname: string) (sqlmixin: bool) (has_add_plugin: bool)
  (ctor_error: "string option")

text \<open>
  Configuration values: strings, class objects, other scalars (booleans, numbers), and
  nested mappings.  A mapping is an association list in insertion order, as a Python
  \<^verbatim>\<open>dict\<close> is.
\<close>

datatype cfg = Str string | Cls cls | Other int | Dict "(string \<times> cfg) list"

datatype db = Db nat

datatype sqlval = Null | Text string

record table =
  columns :: "string list"
  rows :: "(string \<times> sqlval) list list"

text \<open>
  The values an attribute of the application object can hold.  \<open>VInst r\<close> is a reference to
  the dataset instance at index \<open>r\<close> of the heap; \<open>VClassAttr\<close> is an attribute found on
  the class (a method or a built-in of \<^verbatim>\<open>object\<close>); \<open>VBase\<close>, \<open>VSession\<close>, \<open>VBool\<close> and
  \<open>VFun\<close> are the automap base, the ORM session, booleans and opaque callables that
  \<^verbatim>\<open>cli.py\<close> expects to find on the object.
\<close>

datatype pyval =
    VCfg cfg
  | VDb db
  | VInst nat
  | VClassAttr string
  | VBool bool
  | VFun string
  | VBase "(string \<times> table) list"
  | VSession

record inst =
  icls :: cls
  isql :: "pyval option"
  iplugins :: "(string \<times> cls) list"

datatype handler = StreamHandler | OtherHandler string

record logger =
  handlers :: "handler list"
  level :: nat

datatype event =
    EvSetupLogger
  | EvReadConfigFile string
  | EvMergeConfig
  | EvExpandConfig
  | EvMakedirs
  | EvDatabase
  | EvAddDataset string
  | EvAddPlugin string string
  | EvStoreCheck
  | EvEcho string
  | EvBootstrapUnihan
  | EvReflectDb
  | EvQuery string
  | EvPrint string

text \<open>
  The state of a run: the \<^verbatim>\<open>__dict__\<close> of the application object, the heap of dataset
  instances, the root logger, and the trace of effects performed so far.
\<close>

record world =
  attrs :: "(string \<times> pyval) list"
  insts :: "inst list"
  root_logger :: logger
  trace :: "event list"

text \<open>
  Everything \<^verbatim>\<open>core.py\<close> and \<^verbatim>\<open>cli.py\<close> import from modules that are not part of the
  sources (\<^verbatim>\<open>constants\<close>, \<^verbatim>\<open>utils\<close>, \<^verbatim>\<open>config\<close>, \<^verbatim>\<open>db\<close>, \<^verbatim>\<open>_compat\<close>, \<^verbatim>\<open>kaptan\<close>,
  \<^verbatim>\<open>os.path\<close>) is a parameter of the model.
\<close>

record env =
  DEFAULT_CONFIG :: cfg
  UNIHAN_CONFIG :: cfg
  import_string :: "string \<Rightarrow> string + cls"
  expand_config :: "cfg \<Rightarrow> cfg"
  user_data_dir_exists :: bool
  Database :: "cfg \<Rightarrow> string + db"
  path_exists :: "string \<Rightarrow> bool"
  abspath :: "string \<Rightarrow> string"
  import_config :: "string \<Rightarrow> string + cfg"
  PY2 :: bool
  encode_utf8 :: "string \<Rightarrow> string"

section \<open>Configuration merging\<close>

text \<open>
  Modelled from the spec: \<^verbatim>\<open>merge_dict\<close> is imported from \<^verbatim>\<open>cihai/utils.py\<close>, which is
  not part of the sources.  The spec says that the configuration loader "merges nested
  mapping defaults with user-supplied overrides": where both sides are mappings the keys
  of the base keep their place and are merged recursively with the override's value for
  the same key, and the override's new keys follow; in every other case the override
  replaces the base.
\<close>

fun merge_dict :: "cfg \<Rightarrow> cfg \<Rightarrow> cfg" where
  "merge_dict (Dict b) (Dict a) =
     Dict (map (\<lambda>e. (fst e, case map_of a (fst e) of
                                None \<Rightarrow> snd e
                              | Some v \<Rightarrow> merge_dict (snd e) v)) b
           @ filter (\<lambda>e. map_of b (fst e) = None) a)"
| "merge_dict b a = a"




text \<open>
  Lines 77--85 of \<^verbatim>\<open>Cihai.__init__\<close>: the configuration before template expansion.
\<close>

definition Cihai_config :: "env \<Rightarrow> cfg option \<Rightarrow> bool \<Rightarrow> cfg" where
  "Cihai_config e config unihan =
     (let config' = (case config of None \<Rightarrow> Dict [] | Some c \<Rightarrow> c);
          merged = merge_dict (DEFAULT_CONFIG e) config'
      in if unihan then merge_dict (UNIHAN_CONFIG e) merged else merged)"

section \<open>Logging setup (\<^verbatim>\<open>cli.setup_logger\<close>)\<close>

text \<open>
  \<^verbatim>\<open>Logger.setLevel\<close> accepts the level names known to the \<^verbatim>\<open>logging\<close> module and
  raises \<^verbatim>\<open>ValueError\<close> on any other string.
\<close>

definition level_of_name :: "string \<Rightarrow> nat option" where
  "level_of_name = map_of
     [(''CRITICAL'', 50), (''FATAL'', 50), (''ERROR'', 40), (''WARN'', 30),
      (''WARNING'', 30), (''INFO'', 20), (''DEBUG'', 10), (''NOTSET'', 0)]"

text \<open>
  \<open>setup_logger root lg lvl\<close>: \<open>lg\<close> is the optional \<^verbatim>\<open>logger\<close> argument (a
  \<^verbatim>\<open>Logger\<close> object is always truthy, so only \<^verbatim>\<open>None\<close> selects the root logger).
  The result is the state of the target logger after the call.
\<close>

definition setup_logger :: "logger \<Rightarrow> logger option \<Rightarrow> string \<Rightarrow> error + logger" where
  "setup_logger root lg lvl =
     (let target = (case lg of None \<Rightarrow> root | Some l \<Rightarrow> l)
      in if handlers target = []
         then (case level_of_name lvl of
                 None \<Rightarrow> Inl (ValueError (''Unknown level: '' @ lvl))
               | Some n \<Rightarrow> Inr (target\<lparr>level := n, handlers := handlers target @ [StreamHandler]\<rparr>))
         else Inr target)"

text \<open>
  Repeated calls on the same logger, as successive CLI invocations in one process make
  them; a call that raises leaves the logger as it was.
\<close>

fun setup_logger_calls :: "logger \<Rightarrow> string list \<Rightarrow> logger" where
  "setup_logger_calls l [] = l"
| "setup_logger_calls l (lvl # lvls) =
     (case setup_logger l None lvl of
        Inl err \<Rightarrow> setup_logger_calls l lvls
      | Inr l' \<Rightarrow> setup_logger_calls l' lvls)"

section \<open>The application object (\<^verbatim>\<open>core.Cihai\<close>)\<close>

definition emit :: "event \<Rightarrow> world \<Rightarrow> world" where
  "emit ev w = w\<lparr>trace := trace w @ [ev]\<rparr>"

text \<open>
  Names that resolve on the class when the instance \<^verbatim>\<open>__dict__\<close> has no entry: the
  methods of \<^verbatim>\<open>Cihai\<close> and the attributes every \<^verbatim>\<open>object\<close> has.
\<close>

definition class_attrs :: "string list" where
  "class_attrs =
     [''bootstrap'', ''add_dataset'', ''from_file'',
      ''__class__'', ''__delattr__'', ''__dict__'', ''__dir__'', ''__doc__'', ''__eq__'',
      ''__format__'', ''__ge__'', ''__getattribute__'', ''__gt__'', ''__hash__'',
      ''__init__'', ''__init_subclass__'', ''__le__'', ''__lt__'', ''__module__'',
      ''__ne__'', ''__new__'', ''__reduce__'', ''__reduce_ex__'', ''__repr__'',
      ''__setattr__'', ''__sizeof__'', ''__str__'', ''__subclasshook__'', ''__weakref__'']"

definition py_getattr :: "env \<Rightarrow> world \<Rightarrow> string \<Rightarrow> pyval option" where
  "py_getattr e w name =
     (case map_of (attrs w) name of
        Some v \<Rightarrow> Some v
      | None \<Rightarrow>
          if name = ''default_config'' then Some (VCfg (DEFAULT_CONFIG e))
          else if name \<in> set class_attrs then Some (VClassAttr name)
          else None)"

text \<open>
  \<^verbatim>\<open>setattr(self, name, value)\<close> stores into the instance \<^verbatim>\<open>__dict__\<close>, except for the
  three data descriptors of the class, which reject a dataset instance.
\<close>

definition py_setattr :: "string \<Rightarrow> pyval \<Rightarrow> world \<Rightarrow> error + world" where
  "py_setattr name v w =
     (if name = ''__class__'' then Inl (TypeError ''__class__ must be set to a class'')
      else if name = ''__dict__'' then Inl (TypeError ''__dict__ must be set to a dictionary'')
      else if name = ''__weakref__'' then Inl (AttributeError ''Cihai'' ''__weakref__'')
      else Inr (w\<lparr>attrs := AList.update name v (attrs w)\<rparr>))"

fun cfg_kind :: "cfg \<Rightarrow> string" where
  "cfg_kind (Str s) = ''str''"
| "cfg_kind (Cls k) = ''type''"
| "cfg_kind (Other n) = ''int''"
| "cfg_kind (Dict kvs) = ''dict''"

fun pyval_kind :: "pyval \<Rightarrow> string" where
  "pyval_kind (VCfg c) = cfg_kind c"
| "pyval_kind (VDb d) = ''Database''"
| "pyval_kind (VInst r) = ''dataset''"
| "pyval_kind (VClassAttr n) = ''method''"
| "pyval_kind (VBool b) = ''bool''"
| "pyval_kind (VFun f) = ''function''"
| "pyval_kind (VBase cs) = ''Base''"
| "pyval_kind VSession = ''Session''"

text \<open>
  Lines 109--110 and the call of line 112: a string is imported, anything else is called
  as it is; only a class can be called.
\<close>

definition resolve_class :: "env \<Rightarrow> cfg \<Rightarrow> error + cls" where
  "resolve_class e cls_arg =
     (case cls_arg of
        Str s \<Rightarrow> (case import_string e s of
                   Inl msg \<Rightarrow> Inl (ExternalError msg)
                 | Inr k \<Rightarrow> Inr k)
      | Cls k \<Rightarrow> Inr k
      | _ \<Rightarrow> Inl (TypeError (cfg_kind cls_arg @ '' object is not callable'')))"

definition isinstance_SQLAlchemyMixin :: "world \<Rightarrow> pyval \<Rightarrow> bool" where
  "isinstance_SQLAlchemyMixin w v =
     (case v of
        VInst r \<Rightarrow> r < length (insts w) \<and> sqlmixin (icls (insts w ! r))
      | _ \<Rightarrow> False)"

definition set_sql :: "pyval \<Rightarrow> pyval \<Rightarrow> world \<Rightarrow> world" where
  "set_sql target v w =
     (case target of
        VInst r \<Rightarrow> w\<lparr>insts := (insts w)[r := (insts w ! r)\<lparr>isql := Some v\<rparr>]\<rparr>
      | _ \<Rightarrow> w)"

definition add_dataset :: "env \<Rightarrow> cfg \<Rightarrow> string \<Rightarrow> world \<Rightarrow> error option \<times> world" where
  "add_dataset e cls_arg namespace w =
     (case resolve_class e cls_arg of
        Inl err \<Rightarrow> (Some err, w)
      | Inr k \<Rightarrow>
         (case ctor_error k of
            Some msg \<Rightarrow> (Some (ExternalError msg), w)
          | None \<Rightarrow>
             (let r = length (insts w);
                  w1 = w\<lparr>insts := insts w @ [\<lparr>icls = k, isql = None, iplugins = []\<rparr>]\<rparr>
              in case py_setattr namespace (VInst r) w1 of
                   Inl err \<Rightarrow> (Some err, w1)
                 | Inr w2 \<Rightarrow>
                    (let w3 = emit (EvAddDataset namespace) w2
                     in case py_getattr e w3 namespace of
                          None \<Rightarrow> (Some (AttributeError ''Cihai'' namespace), w3)
                        | Some dataset \<Rightarrow>
                            if isinstance_SQLAlchemyMixin w3 dataset
                            then (case py_getattr e w3 ''sql'' of
                                    None \<Rightarrow> (Some (AttributeError ''Cihai'' ''sql''), w3)
                                  | Some s \<Rightarrow> (None, set_sql dataset s w3))
                            else (None, w3)))))"

text \<open>
  The state right after line 112 has run for a class \<open>k\<close>: a new instance is on the heap
  and the attribute \<open>namespace\<close> refers to it.
\<close>

definition attached :: "cls \<Rightarrow> string \<Rightarrow> world \<Rightarrow> world" where
  "attached k namespace w =
     w\<lparr>insts := insts w @ [\<lparr>icls = k, isql = None, iplugins = []\<rparr>],
       attrs := AList.update namespace (VInst (length (insts w))) (attrs w),
       trace := trace w @ [EvAddDataset namespace]\<rparr>"

text \<open>\<^verbatim>\<open>d.get(key, {})\<close> and \<^verbatim>\<open>d.items()\<close> exist on a mapping only.\<close>

definition cfg_get :: "cfg \<Rightarrow> string \<Rightarrow> error + cfg" where
  "cfg_get c key =
     (case c of
        Dict kvs \<Rightarrow> Inr (case map_of kvs key of None \<Rightarrow> Dict [] | Some v \<Rightarrow> v)
      | _ \<Rightarrow> Inl (AttributeError (cfg_kind c) ''get''))"

definition cfg_items :: "cfg \<Rightarrow> error + (string \<times> cfg) list" where
  "cfg_items c =
     (case c of
        Dict kvs \<Rightarrow> Inr kvs
      | _ \<Rightarrow> Inl (AttributeError (cfg_kind c) ''items''))"

text \<open>\<^verbatim>\<open>self.config.get(key, {})\<close>, reading the attribute \<^verbatim>\<open>config\<close> as it is now.\<close>

definition self_config_get :: "env \<Rightarrow> world \<Rightarrow> string \<Rightarrow> error + cfg" where
  "self_config_get e w key =
     (case py_getattr e w ''config'' of
        None \<Rightarrow> Inl (AttributeError ''Cihai'' ''config'')
      | Some (VCfg c) \<Rightarrow> cfg_get c key
      | Some v \<Rightarrow> Inl (AttributeError (pyval_kind v) ''get''))"

text \<open>
  Modelled from the spec: \<^verbatim>\<open>add_plugin\<close> is a method of the dataset classes of
  \<^verbatim>\<open>cihai/extend.py\<close>, which is not part of the sources.  Following the spec's "dynamically
  imports classes by dotted path string and attaches them as named attributes", the
  plugin class is resolved and instantiated like a dataset and recorded under its
  namespace on the dataset instance.  The attribute \<^verbatim>\<open>add_plugin\<close> exists only on a
  dataset instance whose class provides it.
\<close>

definition add_plugin ::
  "env \<Rightarrow> string \<Rightarrow> pyval \<Rightarrow> cfg \<Rightarrow> string \<Rightarrow> world \<Rightarrow> error option \<times> world" where
  "add_plugin e dataset target cls_arg namespace w =
     (case target of
        VInst r \<Rightarrow>
          if r < length (insts w) \<and> has_add_plugin (icls (insts w ! r))
          then (let w1 = emit (EvAddPlugin dataset namespace) w
                in case resolve_class e cls_arg of
                     Inl err \<Rightarrow> (Some err, w1)
                   | Inr k \<Rightarrow>
                      (case ctor_error k of
                         Some msg \<Rightarrow> (Some (ExternalError msg), w1)
                       | None \<Rightarrow>
                          (None, w1\<lparr>insts := (insts w1)
                             [r := (insts w1 ! r)
                                \<lparr>iplugins := AList.update namespace k (iplugins (insts w1 ! r))\<rparr>]\<rparr>)))
          else (Some (AttributeError ''dataset'' ''add_plugin''), w)
      | _ \<Rightarrow> (Some (AttributeError (pyval_kind target) ''add_plugin''), w))"

text \<open>
  The loop of lines 101--102.  The method \<^verbatim>\<open>self.add_dataset\<close> is looked up at every
  iteration; a dataset attached under that very name hides the method.
\<close>

fun load_datasets :: "env \<Rightarrow> (string \<times> cfg) list \<Rightarrow> world \<Rightarrow> error option \<times> world" where
  "load_datasets e [] w = (None, w)"
| "load_datasets e ((namespace, class_string) # rest) w =
     (case py_getattr e w ''add_dataset'' of
        None \<Rightarrow> (Some (AttributeError ''Cihai'' ''add_dataset''), w)
      | Some (VClassAttr m) \<Rightarrow>
          (case add_dataset e class_string namespace w of
             (Some err, w') \<Rightarrow> (Some err, w')
           | (None, w') \<Rightarrow> load_datasets e rest w')
      | Some v \<Rightarrow> (Some (TypeError (pyval_kind v @ '' object is not callable'')), w))"

text \<open>The inner loop of lines 105--106, for one dataset name.\<close>

fun add_plugins_for ::
  "env \<Rightarrow> string \<Rightarrow> (string \<times> cfg) list \<Rightarrow> world \<Rightarrow> error option \<times> world" where
  "add_plugins_for e dataset [] w = (None, w)"
| "add_plugins_for e dataset ((namespace, class_string) # rest) w =
     (case py_getattr e w dataset of
        None \<Rightarrow> (Some (AttributeError ''Cihai'' dataset), w)
      | Some target \<Rightarrow>
          (case add_plugin e dataset target class_string namespace w of
             (Some err, w') \<Rightarrow> (Some err, w')
           | (None, w') \<Rightarrow> add_plugins_for e dataset rest w'))"

text \<open>The outer loop of lines 104--106.\<close>

fun load_plugins :: "env \<Rightarrow> (string \<times> cfg) list \<Rightarrow> world \<Rightarrow> error option \<times> world" where
  "load_plugins e [] w = (None, w)"
| "load_plugins e ((dataset, plugins) # rest) w =
     (case cfg_items plugins of
        Inl err \<Rightarrow> (Some err, w)
      | Inr ps \<Rightarrow>
          (case add_plugins_for e dataset ps w of
             (Some err, w') \<Rightarrow> (Some err, w')
           | (None, w') \<Rightarrow> load_plugins e rest w'))"

text \<open>The two halves of \<^verbatim>\<open>Cihai.bootstrap\<close> and the method itself (lines 100--106).\<close>

definition bootstrap_datasets :: "env \<Rightarrow> world \<Rightarrow> error option \<times> world" where
  "bootstrap_datasets e w =
     (case self_config_get e w ''datasets'' of
        Inl err \<Rightarrow> (Some err, w)
      | Inr d \<Rightarrow>
          (case cfg_items d of
             Inl err \<Rightarrow> (Some err, w)
           | Inr ds \<Rightarrow> load_datasets e ds w))"

definition bootstrap_plugins :: "env \<Rightarrow> world \<Rightarrow> error option \<times> world" where
  "bootstrap_plugins e w =
     (case self_config_get e w ''plugins'' of
        Inl err \<Rightarrow> (Some err, w)
      | Inr p \<Rightarrow>
          (case cfg_items p of
             Inl err \<Rightarrow> (Some err, w)
           | Inr ps \<Rightarrow> load_plugins e ps w))"

definition bootstrap :: "env \<Rightarrow> world \<Rightarrow> error option \<times> world" where
  "bootstrap e w =
     (case bootstrap_datasets e w of
        (Some err, w') \<Rightarrow> (Some err, w')
      | (None, w') \<Rightarrow> bootstrap_plugins e w')"

text \<open>
  \<^verbatim>\<open>Cihai.__init__\<close> (lines 69--98).  A new object starts with an empty \<^verbatim>\<open>__dict__\<close>;
  \<^verbatim>\<open>expand_config\<close> rewrites the configuration in place.
\<close>

definition Cihai_init :: "env \<Rightarrow> cfg option \<Rightarrow> bool \<Rightarrow> world \<Rightarrow> error option \<times> world" where
  "Cihai_init e config unihan w =
     (let c0 = Cihai_config e config unihan;
          w1 = emit EvMergeConfig (w\<lparr>attrs := [(''config'', VCfg c0)]\<rparr>);
          c1 = expand_config e c0;
          w2 = emit EvExpandConfig (w1\<lparr>attrs := [(''config'', VCfg c1)]\<rparr>);
          w3 = (if user_data_dir_exists e then w2 else emit EvMakedirs w2)
      in case Database e c1 of
           Inl msg \<Rightarrow> (Some (ExternalError msg), w3)
         | Inr d \<Rightarrow>
             bootstrap e (emit EvDatabase (w3\<lparr>attrs := AList.update ''sql'' (VDb d) (attrs w3)\<rparr>)))"

text \<open>\<^verbatim>\<open>Cihai.from_file\<close> (lines 118--155).\<close>

definition config_extensions :: "string list" where
  "config_extensions = [''json'', ''yml'', ''yaml'', ''ini'']"

definition from_file :: "env \<Rightarrow> string option \<Rightarrow> world \<Rightarrow> error option \<times> world" where
  "from_file e config_path w =
     (case config_path of
        None \<Rightarrow> Cihai_init e (Some (Dict [])) True w
      | Some p \<Rightarrow>
          if p = [] then Cihai_init e (Some (Dict [])) True w
          else if \<not> path_exists e p
          then (Some (CihaiException (abspath e p @ '' does not exist.'')), w)
          else if \<not> list_ex (\<lambda>ext. suffix ext p) config_extensions
          then (Some (CihaiException
                  (abspath e p @ '' does not have a yaml,yml,json,ini extend.'')), w)
          else (case import_config e p of
                  Inl msg \<Rightarrow> (Some (ExternalError msg), w)
                | Inr custom_config \<Rightarrow>
                    Cihai_init e (Some (merge_dict (Dict []) custom_config)) True
                      (emit (EvReadConfigFile p) w)))"

section \<open>The command line (\<^verbatim>\<open>cli.py\<close>)\<close>

fun cfg_truthy :: "cfg \<Rightarrow> bool" where
  "cfg_truthy (Str s) = (s \<noteq> [])"
| "cfg_truthy (Cls k) = True"
| "cfg_truthy (Other n) = (n \<noteq> 0)"
| "cfg_truthy (Dict kvs) = (kvs \<noteq> [])"

text \<open>Truth value of an attribute; a dataset instance is a plain, truthy object.\<close>

fun truthy :: "pyval \<Rightarrow> bool" where
  "truthy (VCfg c) = cfg_truthy c"
| "truthy (VBool b) = b"
| "truthy _ = True"

definition char_upper :: "char \<Rightarrow> char" where
  "char_upper c =
     (let n = (of_char c :: nat) in if 97 \<le> n \<and> n \<le> 122 then char_of (n - 32) else c)"

definition upper :: "string \<Rightarrow> string" where
  "upper s = map char_upper s"

text \<open>
  Lines 33--39 of the group callback, on the application object \<open>c\<close> that the world holds.
  Modelled from the spec: \<^verbatim>\<open>bootstrap_unihan\<close> comes from \<^verbatim>\<open>cihai/bootstrap.py\<close>, which
  is not part of the sources; the spec's "downloads a dataset archive, extracts it, and
  bulk-loads rows into the store" is the single effect \<open>EvBootstrapUnihan\<close>.
\<close>

definition cli_store :: "env \<Rightarrow> world \<Rightarrow> error option \<times> world" where
  "cli_store e w =
     (let w1 = emit EvStoreCheck w
      in case py_getattr e w1 ''is_bootstrapped'' of
           None \<Rightarrow> (Some (AttributeError ''Cihai'' ''is_bootstrapped''), w1)
         | Some b \<Rightarrow>
             if truthy b then (None, w1)
             else
              (let w2 = emit (EvEcho ''Bootstrapping Unihan database'') w1
               in case py_getattr e w2 ''metadata'' of
                    None \<Rightarrow> (Some (AttributeError ''Cihai'' ''metadata''), w2)
                  | Some metadata \<Rightarrow>
                     (case self_config_get e w2 ''unihan_options'' of
                        Inl err \<Rightarrow> (Some err, w2)
                      | Inr options \<Rightarrow>
                         (let w3 = emit EvBootstrapUnihan w2
                          in case py_getattr e w3 ''reflect_db'' of
                               None \<Rightarrow> (Some (AttributeError ''Cihai'' ''reflect_db''), w3)
                             | Some (VFun f) \<Rightarrow> (None, emit EvReflectDb w3)
                             | Some v \<Rightarrow>
                                 (Some (TypeError (pyval_kind v @ '' object is not callable'')),
                                  w3)))))"

text \<open>
  The group callback \<^verbatim>\<open>cli\<close> (lines 14--39).  The option \<^verbatim>\<open>--config\<close> is declared as
  \<^verbatim>\<open>click.Path(exists=True)\<close>, so a path that does not exist is rejected before the body
  runs.
\<close>

definition cli :: "env \<Rightarrow> string option \<Rightarrow> string \<Rightarrow> world \<Rightarrow> error option \<times> world" where
  "cli e config log_level w =
     (if (case config of None \<Rightarrow> False | Some p \<Rightarrow> \<not> path_exists e p)
      then (Some (UsageError ''Invalid value for --config''), w)
      else
       (case setup_logger (root_logger w) None (upper log_level) of
          Inl err \<Rightarrow> (Some err, w)
        | Inr l \<Rightarrow>
           (let w1 = emit EvSetupLogger (w\<lparr>root_logger := l\<rparr>)
            in case (if config \<noteq> None \<and> config \<noteq> Some []
                     then from_file e config w1
                     else Cihai_init e None True w1) of
                 (Some err, w2) \<Rightarrow> (Some err, w2)
               | (None, w2) \<Rightarrow> cli_store e w2)))"

text \<open>
  The command \<^verbatim>\<open>info\<close> (lines 42--55) on the object passed down in \<^verbatim>\<open>ctx.obj['c']\<close>.
  \<^verbatim>\<open>filter_by(char=char).first()\<close> is the first row of the table mapped by the class
  \<^verbatim>\<open>Unihan\<close> whose column \<^verbatim>\<open>char\<close> equals the argument, or \<^verbatim>\<open>None\<close>.
\<close>

definition rjust :: "nat \<Rightarrow> string \<Rightarrow> string" where
  "rjust n s = replicate (n - length s) CHR '' '' @ s"

definition format_line :: "string \<Rightarrow> string \<Rightarrow> string" where
  "format_line c v = rjust 30 c @ '' '' @ rjust 60 v"

fun sql_truthy :: "sqlval \<Rightarrow> bool" where
  "sql_truthy Null = False"
| "sql_truthy (Text s) = (s \<noteq> [])"

fun sql_text :: "sqlval \<Rightarrow> string" where
  "sql_text Null = ''None''"
| "sql_text (Text s) = s"

fun print_columns ::
  "env \<Rightarrow> (string \<times> sqlval) list \<Rightarrow> string list \<Rightarrow> world \<Rightarrow> error option \<times> world" where
  "print_columns e query [] w = (None, w)"
| "print_columns e query (c # cs) w =
     (case map_of query c of
        None \<Rightarrow> (Some (AttributeError ''Unihan'' c), w)
      | Some v \<Rightarrow>
          print_columns e query cs
            (if sql_truthy v
             then emit (EvPrint (format_line c
                    (if PY2 e then encode_utf8 e (sql_text v) else sql_text v))) w
             else w))"

definition first_row :: "table \<Rightarrow> string \<Rightarrow> (string \<times> sqlval) list option" where
  "first_row t ch = find (\<lambda>r. map_of r ''char'' = Some (Text ch)) (rows t)"

definition command_info :: "env \<Rightarrow> world \<Rightarrow> string \<Rightarrow> error option \<times> world" where
  "command_info e w ch =
     (case py_getattr e w ''base'' of
        None \<Rightarrow> (Some (AttributeError ''Cihai'' ''base''), w)
      | Some (VBase classes) \<Rightarrow>
         (case map_of classes ''Unihan'' of
            None \<Rightarrow> (Some (AttributeError ''classes'' ''Unihan''), w)
          | Some Unihan \<Rightarrow>
             (case py_getattr e w ''session'' of
                None \<Rightarrow> (Some (AttributeError ''Cihai'' ''session''), w)
              | Some VSession \<Rightarrow>
                  if ''char'' \<notin> set (columns Unihan)
                  then (Some (ExternalError ''InvalidRequestError''), w)
                  else
                   (let w1 = emit (EvQuery ch) w
                    in case first_row Unihan ch of
                         None \<Rightarrow> (Some (AttributeError ''NoneType'' ''__table__''), w1)
                       | Some query \<Rightarrow> print_columns e query (columns Unihan) w1)
              | Some v \<Rightarrow> (Some (AttributeError (pyval_kind v) ''query''), w)))
      | Some v \<Rightarrow> (Some (AttributeError (pyval_kind v) ''classes''), w))"

text \<open>A whole invocation \<^verbatim>\<open>cihai [-c config] [--log_level l] info ch\<close>.\<close>

definition invoke_info ::
  "env \<Rightarrow> string option \<Rightarrow> string \<Rightarrow> string \<Rightarrow> world \<Rightarrow> error option \<times> world" where
  "invoke_info e config log_level ch w =
     (case cli e config log_level w of
        (Some err, w') \<Rightarrow> (Some err, w')
      | (None, w') \<Rightarrow> command_info e w' ch)"

text \<open>
  The stage of an invocation to which an effect belongs, in the order in which the code
  can perform them.
\<close>

fun stage :: "event \<Rightarrow> nat" where
  "stage EvSetupLogger = 0"
| "stage (EvReadConfigFile p) = 1"
| "stage EvMergeConfig = 2"
| "stage EvExpandConfig = 3"
| "stage EvMakedirs = 4"
| "stage EvDatabase = 5"
| "stage (EvAddDataset n) = 6"
| "stage (EvAddPlugin d n) = 7"
| "stage EvStoreCheck = 8"
| "stage (EvEcho s) = 9"
| "stage EvBootstrapUnihan = 10"
| "stage EvReflectDb = 11"
| "stage (EvQuery ch) = 12"
| "stage (EvPrint s) = 13"

text \<open>
  A list of effects is staged between \<open>lo\<close> and \<open>hi\<close> when its stages never decrease and
  all lie in that range.
\<close>

definition staged :: "nat \<Rightarrow> nat \<Rightarrow> event list \<Rightarrow> bool" where
  "staged lo hi evs \<longleftrightarrow>
     sorted (map stage evs) \<and> (\<forall>ev \<in> set evs. lo \<le> stage ev \<and> stage ev \<le> hi)"

text \<open>A small concrete environment and starting state, for evaluating the model.\<close>

definition Unihan_class :: cls where
  "Unihan_class = Class ''Unihan'' True True None"

definition Variants_class :: cls where
  "Variants_class = Class ''UnihanVariants'' True False None"

definition example_env :: env where
  "example_env =
     \<lparr>DEFAULT_CONFIG = Dict [(''debug'', Other 0),
                             (''database'', Dict [(''url'', Str ''sqlite:///{user_data_dir}/cihai.db'')])],
      UNIHAN_CONFIG = Dict [(''datasets'', Dict [(''unihan'', Str ''cihai.data.unihan.dataset.Unihan'')]),
                            (''plugins'', Dict [(''unihan'',
                               Dict [(''variants'', Str ''cihai.data.unihan.dataset.UnihanVariants'')])])],
      import_string = (\<lambda>s. if s = ''cihai.data.unihan.dataset.Unihan'' then Inr Unihan_class
                            else if s = ''cihai.data.unihan.dataset.UnihanVariants'' then Inr Variants_class
                            else Inl ''ImportStringError''),
      expand_config = (\<lambda>c. c),
      user_data_dir_exists = True,
      Database = (\<lambda>c. Inr (Db 0)),
      path_exists = (\<lambda>p. p = ''cihai.yaml'' \<or> p = ''notes.txt''),
      abspath = (\<lambda>p. ''/home/user/'' @ p),
      import_config = (\<lambda>p. Inr (Dict [(''database'', Dict [(''url'', Str ''sqlite:///:memory:'')])])),
      PY2 = False,
      encode_utf8 = (\<lambda>s. s)\<rparr>"

definition empty_world :: world where
  "empty_world = \<lparr>attrs = [], insts = [], root_logger = \<lparr>handlers = [], level = 30\<rparr>, trace = []\<rparr>"

text \<open>The application object of the example as it is when line 98 calls \<^verbatim>\<open>bootstrap\<close>.\<close>

definition example_app :: world where
  "example_app =
     \<lparr>attrs = [(''config'', VCfg (Cihai_config example_env None True)), (''sql'', VDb (Db 0))],
      insts = [], root_logger = \<lparr>handlers = [], level = 30\<rparr>, trace = []\<rparr>"

text \<open>
  An object as \<^verbatim>\<open>command_info\<close> expects it: a reflected \<^verbatim>\<open>Unihan\<close> class and a
  session.
\<close>

definition example_table :: table where
  "example_table =
     \<lparr>columns = [''char'', ''kDefinition'', ''kMandarin''],
      rows = [[(''char'', Text ''A''), (''kDefinition'', Text ''good''), (''kMandarin'', Null)],
              [(''char'', Text ''B''), (''kDefinition'', Text []), (''kMandarin'', Text ''hao'')]]\<rparr>"

definition db_world :: world where
  "db_world =
     \<lparr>attrs = [(''base'', VBase [(''Unihan'', example_table)]), (''session'', VSession)],
      insts = [], root_logger = \<lparr>handlers = [], level = 30\<rparr>, trace = []\<rparr>"


section \<open>Configuration merging: precedence of the overrides\<close>













section \<open>Logging setup is idempotent\<close>

lemma setup_logger_with_handlers:
  "handlers l \<noteq> [] \<Longrightarrow> setup_logger l None lvl = Inr l"
  by (simp add: setup_logger_def)

lemma setup_logger_calls_with_handlers:
  "handlers l \<noteq> [] \<Longrightarrow> setup_logger_calls l lvls = l"
  by (induction lvls) (simp_all add: setup_logger_with_handlers)

lemma setup_logger_calls_fresh:
  "handlers l = [] \<Longrightarrow>
     handlers (setup_logger_calls l lvls) = [] \<or>
     handlers (setup_logger_calls l lvls) = [StreamHandler]"
proof (induction lvls)
  case Nil
  then show ?case by simp
next
  case (Cons lvl lvls)
  show ?case
  proof (cases "level_of_name lvl")
    case None
    then show ?thesis using Cons by (simp add: setup_logger_def)
  next
    case (Some n)
    then have "setup_logger l None lvl = Inr (l\<lparr>level := n, handlers := [StreamHandler]\<rparr>)"
      using Cons.prems by (simp add: setup_logger_def)
    then show ?thesis
      by (simp add: setup_logger_calls_with_handlers)
  qed
qed

text \<open>
  C10.  \<^verbatim>\<open>setup_logger\<close> is idempotent with respect to handler installation: when the
  target logger already has a handler the call returns it unchanged (no handler added,
  level untouched), so any sequence of calls leaves a logger that had handlers as it was
  and installs at most one stream handler on a logger that had none.
\<close>

theorem C10_setup_logger_idempotent:
  "(handlers (case lg of None \<Rightarrow> root | Some l \<Rightarrow> l) \<noteq> [] \<longrightarrow>
      setup_logger root lg lvl = Inr (case lg of None \<Rightarrow> root | Some l \<Rightarrow> l)) \<and>
   (handlers root \<noteq> [] \<longrightarrow> setup_logger_calls root lvls = root) \<and>
   (handlers root = [] \<longrightarrow>
      handlers (setup_logger_calls root lvls) = [] \<or>
      handlers (setup_logger_calls root lvls) = [StreamHandler])"
  by (simp add: setup_logger_def setup_logger_calls_with_handlers setup_logger_calls_fresh)

theorem C10_setup_logger_witness:
  "setup_logger \<lparr>handlers = [StreamHandler], level = 20\<rparr> None ''DEBUG''
     = Inr \<lparr>handlers = [StreamHandler], level = 20\<rparr> \<and>
   setup_logger_calls \<lparr>handlers = [OtherHandler ''file''], level = 40\<rparr> [''DEBUG'', ''INFO'']
     = \<lparr>handlers = [OtherHandler ''file''], level = 40\<rparr> \<and>
   handlers (setup_logger_calls \<lparr>handlers = [], level = 30\<rparr> [''INFO'', ''DEBUG'', ''INFO''])
     = [StreamHandler]"
  using
    C10_setup_logger_idempotent [where lg = None and root = "\<lparr>handlers = [StreamHandler], level = 20\<rparr>" and lvl = "''DEBUG''" and lvls = "[]"]
    C10_setup_logger_idempotent [where lg = None and root = "\<lparr>handlers = [OtherHandler ''file''], level = 40\<rparr>" and lvl = "''DEBUG''" and lvls = "[''DEBUG'', ''INFO'']"]
    C10_setup_logger_idempotent [where lg = None and root = "\<lparr>handlers = [], level = 30\<rparr>" and lvl = "''DEBUG''" and lvls = "[''INFO'', ''DEBUG'', ''INFO'']"]
  by (simp add: setup_logger_def level_of_name_def)

section \<open>Errors of \<^verbatim>\<open>Cihai.from_file\<close>\<close>

text \<open>
  C9.  For a non-empty \<^verbatim>\<open>config_path\<close>, \<^verbatim>\<open>from_file\<close> raises \<^verbatim>\<open>CihaiException\<close> when
  the path does not exist (whatever its extension: this check comes first) and when it
  exists but ends in none of \<^verbatim>\<open>json\<close>, \<^verbatim>\<open>yml\<close>, \<^verbatim>\<open>yaml\<close>, \<^verbatim>\<open>ini\<close>; in both cases the
  state is left as it was, so no application object has been constructed.  With
  \<^verbatim>\<open>None\<close> or an empty path the object is constructed from an empty override.
\<close>

theorem C9_from_file_errors:
  "(p \<noteq> [] \<and> \<not> path_exists e p \<longrightarrow>
      from_file e (Some p) w = (Some (CihaiException (abspath e p @ '' does not exist.'')), w)) \<and>
   (p \<noteq> [] \<and> path_exists e p \<and> \<not> (\<exists>ext \<in> set config_extensions. suffix ext p) \<longrightarrow>
      from_file e (Some p) w =
        (Some (CihaiException (abspath e p @ '' does not have a yaml,yml,json,ini extend.'')), w)) \<and>
   from_file e None w = Cihai_init e (Some (Dict [])) True w \<and>
   from_file e (Some []) w = Cihai_init e (Some (Dict [])) True w"
  by (simp add: from_file_def list_ex_iff)

theorem C9_from_file_witness:
  "from_file example_env (Some ''nope.txt'') empty_world
     = (Some (CihaiException ''/home/user/nope.txt does not exist.''), empty_world) \<and>
   from_file example_env (Some ''notes.txt'') empty_world
     = (Some (CihaiException ''/home/user/notes.txt does not have a yaml,yml,json,ini extend.''),
        empty_world)"
  using C9_from_file_errors [of "''nope.txt''" example_env empty_world]
    C9_from_file_errors [of "''notes.txt''" example_env empty_world]
  by (simp add: example_env_def config_extensions_def suffix_def)

section \<open>Attaching datasets\<close>

lemma py_setattr_Inr:
  "py_setattr name v w = Inr w2 \<longleftrightarrow>
     name \<noteq> ''__class__'' \<and> name \<noteq> ''__dict__'' \<and> name \<noteq> ''__weakref__'' \<and>
     w2 = w\<lparr>attrs := AList.update name v (attrs w)\<rparr>"
  by (auto simp add: py_setattr_def)

lemma py_getattr_updated:
  "py_getattr e (w\<lparr>attrs := AList.update name v al\<rparr>) name = Some v"
  by (simp add: py_getattr_def update_conv')

lemma py_getattr_emit [simp]: "py_getattr e (emit ev w) name = py_getattr e w name"
  by (simp add: py_getattr_def emit_def)

lemma py_getattr_insts [simp]: "py_getattr e (w\<lparr>insts := xs\<rparr>) name = py_getattr e w name"
  by (simp add: py_getattr_def)

lemma py_getattr_set_sql [simp]: "py_getattr e (set_sql t v w) name = py_getattr e w name"
  by (cases t) (simp_all add: set_sql_def)

text \<open>What a call of \<^verbatim>\<open>add_dataset\<close> that returns normally has done.\<close>

lemma add_dataset_returns:
  assumes "add_dataset e cls_arg namespace w = (None, w')"
  shows "\<exists>k. resolve_class e cls_arg = Inr k \<and> ctor_error k = None \<and>
           attrs w' = AList.update namespace (VInst (length (insts w))) (attrs w) \<and>
           trace w' = trace w @ [EvAddDataset namespace] \<and>
           root_logger w' = root_logger w \<and>
           (sqlmixin k \<longrightarrow> py_getattr e w' ''sql'' \<noteq> None) \<and>
           insts w' = insts w @
             [\<lparr>icls = k, isql = (if sqlmixin k then py_getattr e w' ''sql'' else None),
               iplugins = []\<rparr>]"
proof -
  from assms obtain k where k: "resolve_class e cls_arg = Inr k"
    by (cases "resolve_class e cls_arg") (simp_all add: add_dataset_def)
  from assms k have c: "ctor_error k = None"
    by (cases "ctor_error k") (simp_all add: add_dataset_def)
  define r where "r = length (insts w)"
  define w1 where "w1 = w\<lparr>insts := insts w @ [\<lparr>icls = k, isql = None, iplugins = []\<rparr>]\<rparr>"
  from assms k c obtain w2 where w2: "py_setattr namespace (VInst r) w1 = Inr w2"
    by (cases "py_setattr namespace (VInst r) w1")
      (simp_all add: add_dataset_def Let_def r_def w1_def)
  then have w2_eq: "w2 = w1\<lparr>attrs := AList.update namespace (VInst r) (attrs w1)\<rparr>"
    by (simp add: py_setattr_Inr)
  define w3 where "w3 = emit (EvAddDataset namespace) w2"
  have g: "py_getattr e w3 namespace = Some (VInst r)"
    by (simp add: w3_def w2_eq py_getattr_updated)
  have mix: "isinstance_SQLAlchemyMixin w3 (VInst r) = sqlmixin k"
    by (simp add: isinstance_SQLAlchemyMixin_def w3_def w2_eq w1_def emit_def r_def)
  have res: "(None, w') =
     (if sqlmixin k
      then (case py_getattr e w3 ''sql'' of
              None \<Rightarrow> (Some (AttributeError ''Cihai'' ''sql''), w3)
            | Some s \<Rightarrow> (None, set_sql (VInst r) s w3))
      else (None, w3))"
    using assms k c w2 g mix
    by (simp add: add_dataset_def Let_def r_def [symmetric] w1_def [symmetric]
        w3_def [symmetric])
  show ?thesis
  proof (cases "sqlmixin k")
    case False
    with res have "w' = w3" by simp
    then show ?thesis using k c False
      by (simp add: w3_def w2_eq w1_def emit_def r_def)
  next
    case True
    with res obtain s where s: "py_getattr e w3 ''sql'' = Some s" "w' = set_sql (VInst r) s w3"
      by (cases "py_getattr e w3 ''sql''") simp_all
    then have "py_getattr e w' ''sql'' = Some s" by simp
    then show ?thesis using k c True s
      by (simp add: set_sql_def w3_def w2_eq w1_def emit_def r_def)
  qed
qed

lemma py_getattr_attached:
  "attrs w = AList.update name v al \<Longrightarrow> py_getattr e w name = Some v"
  by (simp add: py_getattr_def update_conv')

lemma py_getattr_same_attrs:
  "attrs w = attrs w' \<Longrightarrow> DEFAULT_CONFIG e = DEFAULT_CONFIG e' \<Longrightarrow>
     py_getattr e w name = py_getattr e' w' name"
  by (simp add: py_getattr_def split: option.splits)

lemma add_dataset_unfold:
  assumes "resolve_class e cls_arg = Inr k" and "ctor_error k = None"
    and "namespace \<noteq> ''__class__''" and "namespace \<noteq> ''__dict__''"
    and "namespace \<noteq> ''__weakref__''"
  shows "add_dataset e cls_arg namespace w =
     (if sqlmixin k
      then (case py_getattr e (attached k namespace w) ''sql'' of
              None \<Rightarrow> (Some (AttributeError ''Cihai'' ''sql''), attached k namespace w)
            | Some s \<Rightarrow> (None, set_sql (VInst (length (insts w))) s (attached k namespace w)))
      else (None, attached k namespace w))"
proof -
  define r where "r = length (insts w)"
  define w1 where "w1 = w\<lparr>insts := insts w @ [\<lparr>icls = k, isql = None, iplugins = []\<rparr>]\<rparr>"
  define w2 where "w2 = w1\<lparr>attrs := AList.update namespace (VInst r) (attrs w1)\<rparr>"
  define w3 where "w3 = emit (EvAddDataset namespace) w2"
  have s: "py_setattr namespace (VInst r) w1 = Inr w2"
    using assms(3-5) by (simp add: py_setattr_Inr w2_def)
  have w3: "w3 = attached k namespace w"
    by (simp add: w3_def w2_def w1_def r_def emit_def attached_def)
  have g: "py_getattr e w3 namespace = Some (VInst r)"
    unfolding w3 r_def by (rule py_getattr_attached) (simp add: attached_def)
  have mix: "isinstance_SQLAlchemyMixin w3 (VInst r) = sqlmixin k"
    by (simp add: isinstance_SQLAlchemyMixin_def w3 attached_def r_def)
  have "add_dataset e cls_arg namespace w =
     (if sqlmixin k
      then (case py_getattr e w3 ''sql'' of
              None \<Rightarrow> (Some (AttributeError ''Cihai'' ''sql''), w3)
            | Some s \<Rightarrow> (None, set_sql (VInst r) s w3))
      else (None, w3))"
    using assms(1,2) s g mix
    by (simp add: add_dataset_def Let_def r_def [symmetric] w1_def [symmetric]
        w3_def [symmetric])
  then show ?thesis unfolding w3 r_def .
qed

lemma add_dataset_attached:
  assumes "resolve_class e cls_arg = Inr k" and "ctor_error k = None"
    and "namespace \<noteq> ''__class__''" and "namespace \<noteq> ''__dict__''"
    and "namespace \<noteq> ''__weakref__''"
  shows "py_getattr e (snd (add_dataset e cls_arg namespace w)) namespace
           = Some (VInst (length (insts w))) \<and>
         icls (insts (snd (add_dataset e cls_arg namespace w)) ! length (insts w)) = k"
proof -
  have g: "py_getattr e (attached k namespace w) namespace = Some (VInst (length (insts w)))"
    by (rule py_getattr_attached) (simp add: attached_def)
  have i: "icls (insts (attached k namespace w) ! length (insts w)) = k"
    by (simp add: attached_def)
  have i': "icls (insts (set_sql (VInst (length (insts w))) s (attached k namespace w))
              ! length (insts w)) = k" for s
    by (simp add: attached_def set_sql_def)
  show ?thesis
    unfolding add_dataset_unfold [OF assms]
    by (cases "py_getattr e (attached k namespace w) ''sql''") (simp_all add: g i i')
qed

text \<open>
  C4.  \<^verbatim>\<open>add_dataset(s, n)\<close> with a dotted-path string \<open>s\<close> imports the class named by
  \<open>s\<close>, instantiates it with no arguments and attaches the new instance as attribute
  \<open>n\<close>, so that afterwards \<^verbatim>\<open>getattr(app, n)\<close> is that instance; a class object passed
  directly is instantiated and attached in the same way, and the result does not depend
  on \<^verbatim>\<open>import_string\<close>.  (The import and the constructor must succeed, and \<open>n\<close> must be
  a name that \<^verbatim>\<open>setattr\<close> can store.)
\<close>

theorem C4_add_dataset_attaches:
  assumes "ctor_error k = None" and "namespace \<notin> {''__class__'', ''__dict__'', ''__weakref__''}"
    and "import_string e s = Inr k"
  shows "py_getattr e (snd (add_dataset e (Str s) namespace w)) namespace
           = Some (VInst (length (insts w))) \<and>
         icls (insts (snd (add_dataset e (Str s) namespace w)) ! length (insts w)) = k \<and>
         py_getattr e (snd (add_dataset e (Cls k) namespace w)) namespace
           = Some (VInst (length (insts w))) \<and>
         icls (insts (snd (add_dataset e (Cls k) namespace w)) ! length (insts w)) = k \<and>
         add_dataset (e\<lparr>import_string := f\<rparr>) (Cls k) namespace w
           = add_dataset e (Cls k) namespace w"
proof -
  have n: "namespace \<noteq> ''__class__''" "namespace \<noteq> ''__dict__''" "namespace \<noteq> ''__weakref__''"
    using assms(2) by simp_all
  have s: "resolve_class e (Str s) = Inr k"
    using assms(3) by (simp add: resolve_class_def)
  have c: "resolve_class e (Cls k) = Inr k" "resolve_class (e\<lparr>import_string := f\<rparr>) (Cls k) = Inr k"
    by (simp_all add: resolve_class_def)
  have "add_dataset (e\<lparr>import_string := f\<rparr>) (Cls k) namespace w
          = add_dataset e (Cls k) namespace w"
    unfolding add_dataset_unfold [OF c(1) assms(1) n] add_dataset_unfold [OF c(2) assms(1) n]
      py_getattr_same_attrs [of "attached k namespace w" "attached k namespace w"
        "e\<lparr>import_string := f\<rparr>" e "''sql''", simplified]
    by (rule refl)
  then show ?thesis
    using add_dataset_attached [OF s assms(1) n, of w]
      add_dataset_attached [OF c(1) assms(1) n, of w]
    by simp
qed

theorem C4_add_dataset_witness:
  "py_getattr example_env
     (snd (add_dataset example_env (Str ''cihai.data.unihan.dataset.Unihan'') ''unihan''
        (empty_world\<lparr>attrs := [(''sql'', VDb (Db 0))]\<rparr>))) ''unihan'' = Some (VInst 0) \<and>
   icls (insts (snd (add_dataset example_env (Str ''cihai.data.unihan.dataset.Unihan'') ''unihan''
        (empty_world\<lparr>attrs := [(''sql'', VDb (Db 0))]\<rparr>))) ! 0) = Unihan_class \<and>
   py_getattr example_env
     (snd (add_dataset example_env (Cls Unihan_class) ''unihan''
        (empty_world\<lparr>attrs := [(''sql'', VDb (Db 0))]\<rparr>))) ''unihan'' = Some (VInst 0)"
  using C4_add_dataset_attaches
    [of Unihan_class "''unihan''" example_env "''cihai.data.unihan.dataset.Unihan''"
        "empty_world\<lparr>attrs := [(''sql'', VDb (Db 0))]\<rparr>"]
  by (simp add: example_env_def Unihan_class_def empty_world_def)

text \<open>
  C5.  When \<^verbatim>\<open>add_dataset\<close> returns, the \<^verbatim>\<open>sql\<close> attribute of the attached instance is
  the application's \<^verbatim>\<open>sql\<close> attribute exactly when the instance's class mixes in
  \<^verbatim>\<open>SQLAlchemyMixin\<close>; an instance of any other class is attached without it.
\<close>

theorem C5_sql_granted_iff_mixin:
  assumes "add_dataset e cls_arg namespace w = (None, w')"
    and "resolve_class e cls_arg = Inr k"
  shows "py_getattr e w' namespace = Some (VInst (length (insts w))) \<and>
         icls (insts w' ! length (insts w)) = k \<and>
         (sqlmixin k \<longrightarrow>
            isql (insts w' ! length (insts w)) = py_getattr e w' ''sql'' \<and>
            py_getattr e w' ''sql'' \<noteq> None) \<and>
         (\<not> sqlmixin k \<longrightarrow> isql (insts w' ! length (insts w)) = None)"
proof -
  from add_dataset_returns [OF assms(1)] assms(2)
  have a: "attrs w' = AList.update namespace (VInst (length (insts w))) (attrs w)"
    and m: "sqlmixin k \<longrightarrow> py_getattr e w' ''sql'' \<noteq> None"
    and i: "insts w' = insts w @
       [\<lparr>icls = k, isql = (if sqlmixin k then py_getattr e w' ''sql'' else None),
         iplugins = []\<rparr>]"
    by auto
  have "py_getattr e w' namespace = Some (VInst (length (insts w)))"
    by (simp add: py_getattr_def a update_conv')
  then show ?thesis using m i by simp
qed

theorem C5_sql_granted_witness:
  "isql (insts (snd (add_dataset example_env (Str ''cihai.data.unihan.dataset.Unihan'') ''unihan''
      (empty_world\<lparr>attrs := [(''sql'', VDb (Db 0))]\<rparr>))) ! 0) = Some (VDb (Db 0)) \<and>
   isql (insts (snd (add_dataset example_env (Cls (Class ''Plain'' False False None)) ''plain''
      (empty_world\<lparr>attrs := [(''sql'', VDb (Db 0))]\<rparr>))) ! 0) = None"
proof -
  let ?w = "empty_world\<lparr>attrs := [(''sql'', VDb (Db 0))]\<rparr>"
  let ?a = "add_dataset example_env (Str ''cihai.data.unihan.dataset.Unihan'') ''unihan'' ?w"
  let ?b = "add_dataset example_env (Cls (Class ''Plain'' False False None)) ''plain'' ?w"
  have a: "?a = (None, snd ?a)" by code_simp
  have b: "?b = (None, snd ?b)" by code_simp
  have ra: "resolve_class example_env (Str ''cihai.data.unihan.dataset.Unihan'') = Inr Unihan_class"
    by code_simp
  have rb: "resolve_class example_env (Cls (Class ''Plain'' False False None))
              = Inr (Class ''Plain'' False False None)"
    by code_simp
  have l: "length (insts ?w) = 0" by (simp add: empty_world_def)
  have s: "py_getattr example_env (snd ?a) ''sql'' = Some (VDb (Db 0))" by code_simp
  show ?thesis
    using C5_sql_granted_iff_mixin [OF a ra] C5_sql_granted_iff_mixin [OF b rb] l s
    by (simp add: Unihan_class_def)
qed

section \<open>The \<^verbatim>\<open>info\<close> command\<close>




text \<open>
  C8.  The \<^verbatim>\<open>info\<close> command presupposes a row for the character: when the table has no
  row whose \<^verbatim>\<open>char\<close> column equals \<open>ch\<close>, \<^verbatim>\<open>first()\<close> is \<^verbatim>\<open>None\<close> and the command fails
  with an attribute error on it, right after the query and without printing anything.
\<close>

theorem C8_info_fails_without_row:
  assumes "py_getattr e w ''base'' = Some (VBase classes)"
    and "map_of classes ''Unihan'' = Some t"
    and "py_getattr e w ''session'' = Some VSession"
    and "''char'' \<in> set (columns t)"
    and "\<forall>r \<in> set (rows t). map_of r ''char'' \<noteq> Some (Text ch)"
  shows "first_row t ch = None \<and>
         command_info e w ch =
           (Some (AttributeError ''NoneType'' ''__table__''), w\<lparr>trace := trace w @ [EvQuery ch]\<rparr>)"
proof -
  have "first_row t ch = None"
    using assms(5) by (simp add: first_row_def find_None_iff)
  then show ?thesis
    using assms(1-4) by (simp add: command_info_def Let_def emit_def)
qed

theorem C8_info_witness:
  "command_info example_env db_world ''C'' =
     (Some (AttributeError ''NoneType'' ''__table__''), db_world\<lparr>trace := [EvQuery ''C'']\<rparr>)"
proof -
  have 1: "py_getattr example_env db_world ''base'' = Some (VBase [(''Unihan'', example_table)])"
    by (simp add: py_getattr_def db_world_def)
  have 2: "map_of [(''Unihan'', example_table)] ''Unihan'' = Some example_table" by simp
  have 3: "py_getattr example_env db_world ''session'' = Some VSession"
    by (simp add: py_getattr_def db_world_def)
  have 4: "''char'' \<in> set (columns example_table)" by (simp add: example_table_def)
  have 5: "\<forall>r \<in> set (rows example_table). map_of r ''char'' \<noteq> Some (Text ''C'')"
    by (simp add: example_table_def)
  show ?thesis
    using C8_info_fails_without_row [OF 1 2 3 4 5] by (simp add: db_world_def)
qed

section \<open>Datasets are attached before plugins\<close>

lemma cfg_kind_not_Cihai [simp]: "cfg_kind c \<noteq> ''Cihai''"
  by (cases c) simp_all

lemma pyval_kind_not_Cihai [simp]: "pyval_kind v \<noteq> ''Cihai''"
  by (cases v) simp_all

lemma add_dataset_trace:
  "trace (snd (add_dataset e cls_arg namespace w)) = trace w \<or>
   trace (snd (add_dataset e cls_arg namespace w)) = trace w @ [EvAddDataset namespace]"
proof (cases "resolve_class e cls_arg")
  case (Inl err)
  then show ?thesis by (simp add: add_dataset_def)
next
  case (Inr k)
  show ?thesis
  proof (cases "ctor_error k")
    case (Some msg)
    then show ?thesis using Inr by (simp add: add_dataset_def)
  next
    case None
    show ?thesis
    proof (cases "namespace = ''__class__'' \<or> namespace = ''__dict__'' \<or> namespace = ''__weakref__''")
      case True
      then show ?thesis using Inr None
        by (auto simp add: add_dataset_def py_setattr_def Let_def)
    next
      case False
      then have n: "namespace \<noteq> ''__class__''" "namespace \<noteq> ''__dict__''"
        "namespace \<noteq> ''__weakref__''" by simp_all
      have t: "trace (attached k namespace w) = trace w @ [EvAddDataset namespace]"
        by (simp add: attached_def)
      have t': "trace (set_sql (VInst (length (insts w))) s (attached k namespace w))
          = trace w @ [EvAddDataset namespace]" for s
        by (simp add: attached_def set_sql_def)
      show ?thesis
        unfolding add_dataset_unfold [OF Inr None n]
        by (cases "py_getattr e (attached k namespace w) ''sql''") (simp_all add: t t')
    qed
  qed
qed

lemma load_datasets_trace:
  "\<exists>ns. trace (snd (load_datasets e ds w)) = trace w @ map EvAddDataset ns"
proof (induction ds arbitrary: w)
  case Nil
  show ?case by (rule exI [of _ "[]"]) simp
next
  case (Cons d ds)
  obtain namespace class_string where d: "d = (namespace, class_string)" by (cases d)
  show ?case
  proof (cases "py_getattr e w ''add_dataset''")
    case None
    show ?thesis by (rule exI [of _ "[]"]) (simp add: d None)
  next
    case (Some v)
    show ?thesis
    proof (cases "\<exists>m. v = VClassAttr m")
      case False
      then have "snd (load_datasets e (d # ds) w) = w"
        using Some by (cases v) (simp_all add: d)
      then show ?thesis by (intro exI [of _ "[]"]) simp
    next
      case True
      then obtain m where v: "v = VClassAttr m" by blast
      obtain r w1 where a: "add_dataset e class_string namespace w = (r, w1)"
        by (cases "add_dataset e class_string namespace w")
      from add_dataset_trace [of e class_string namespace w] a
      obtain n1 where n1: "trace w1 = trace w @ map EvAddDataset n1"
        by (auto intro: that [of "[]"] that [of "[namespace]"])
      show ?thesis
      proof (cases r)
        case (Some err)
        then have "snd (load_datasets e (d # ds) w) = w1"
          using \<open>py_getattr e w ''add_dataset'' = Some v\<close> v a by (simp add: d)
        then show ?thesis using n1 by auto
      next
        case None
        then have s: "load_datasets e (d # ds) w = load_datasets e ds w1"
          using \<open>py_getattr e w ''add_dataset'' = Some v\<close> v a by (simp add: d)
        from Cons.IH [of w1] obtain n2 where
          "trace (snd (load_datasets e ds w1)) = trace w1 @ map EvAddDataset n2" by blast
        then have "trace (snd (load_datasets e (d # ds) w)) = trace w @ map EvAddDataset (n1 @ n2)"
          using n1 s by simp
        then show ?thesis by blast
      qed
    qed
  qed
qed

lemma resolve_class_error:
  "resolve_class e cls_arg = Inl err \<Longrightarrow> err \<noteq> AttributeError a b"
  by (cases cls_arg) (auto simp add: resolve_class_def split: sum.splits)

lemma py_getattr_attrs_cong:
  "attrs w' = attrs w \<Longrightarrow> py_getattr e w' name = py_getattr e w name"
  by (simp add: py_getattr_def)

lemma add_plugin_not_inst:
  "\<forall>ref. target \<noteq> VInst ref \<Longrightarrow>
     add_plugin e d target cls_arg n w
       = (Some (AttributeError (pyval_kind target) ''add_plugin''), w)"
  by (cases target) (simp_all add: add_plugin_def)

lemma add_plugin_no_method:
  "\<not> (ref < length (insts w) \<and> has_add_plugin (icls (insts w ! ref))) \<Longrightarrow>
     add_plugin e d (VInst ref) cls_arg n w
       = (Some (AttributeError ''dataset'' ''add_plugin''), w)"
  by (auto simp add: add_plugin_def)

lemma add_plugin_called:
  "ref < length (insts w) \<and> has_add_plugin (icls (insts w ! ref)) \<Longrightarrow>
     \<exists>r w'. add_plugin e d (VInst ref) cls_arg n w = (r, w') \<and>
       attrs w' = attrs w \<and> trace w' = trace w @ [EvAddPlugin d n] \<and>
       r \<noteq> Some (AttributeError ''Cihai'' x)"
proof (cases "resolve_class e cls_arg")
  case (Inl err)
  assume ok: "ref < length (insts w) \<and> has_add_plugin (icls (insts w ! ref))"
  have "add_plugin e d (VInst ref) cls_arg n w = (Some err, emit (EvAddPlugin d n) w)"
    using ok Inl by (simp add: add_plugin_def Let_def)
  then show ?thesis using resolve_class_error [OF Inl] by (simp add: emit_def)
next
  case (Inr k)
  assume ok: "ref < length (insts w) \<and> has_add_plugin (icls (insts w ! ref))"
  show ?thesis
  proof (cases "ctor_error k")
    case (Some msg)
    have "add_plugin e d (VInst ref) cls_arg n w
            = (Some (ExternalError msg), emit (EvAddPlugin d n) w)"
      using ok Inr Some by (simp add: add_plugin_def Let_def)
    then show ?thesis by (simp add: emit_def)
  next
    case None
    define w1 where "w1 = emit (EvAddPlugin d n) w"
    have "add_plugin e d (VInst ref) cls_arg n w
            = (None, w1\<lparr>insts := (insts w1)
                 [ref := (insts w1 ! ref)
                    \<lparr>iplugins := AList.update n k (iplugins (insts w1 ! ref))\<rparr>]\<rparr>)"
      using ok Inr None by (simp add: add_plugin_def Let_def w1_def)
    then show ?thesis by (simp add: w1_def emit_def)
  qed
qed

lemma add_plugin_effect:
  assumes "add_plugin e d target cls_arg n w = (r, w')"
  shows "attrs w' = attrs w \<and>
         (trace w' = trace w \<or>
          trace w' = trace w @ [EvAddPlugin d n] \<and> (\<exists>ref. target = VInst ref)) \<and>
         r \<noteq> Some (AttributeError ''Cihai'' x)"
proof (cases "\<exists>ref. target = VInst ref")
  case False
  then have "add_plugin e d target cls_arg n w
      = (Some (AttributeError (pyval_kind target) ''add_plugin''), w)"
    by (simp add: add_plugin_not_inst)
  with assms have "w' = w" "r = Some (AttributeError (pyval_kind target) ''add_plugin'')"
    by simp_all
  then show ?thesis using pyval_kind_not_Cihai [of target] by simp
next
  case True
  then obtain ref where t: "target = VInst ref" by blast
  show ?thesis
  proof (cases "ref < length (insts w) \<and> has_add_plugin (icls (insts w ! ref))")
    case False
    from add_plugin_no_method [OF False, of e d cls_arg n] assms t
    have "r = Some (AttributeError ''dataset'' ''add_plugin'')" "w' = w" by simp_all
    then show ?thesis by simp
  next
    case ok: True
    from add_plugin_called [OF ok, of e d cls_arg n x] assms t show ?thesis by auto
  qed
qed


text \<open>One iteration of the inner plugin loop.\<close>

lemma add_plugins_for_step:
  assumes "add_plugins_for e d ((n, class_string) # ps) w = (r, w')"
  obtains (missing) "py_getattr e w d = None" "r = Some (AttributeError ''Cihai'' d)" "w' = w"
  | (raised) target err where "py_getattr e w d = Some target"
      "add_plugin e d target class_string n w = (Some err, w')" "r = Some err"
  | (continued) target w1 where "py_getattr e w d = Some target"
      "add_plugin e d target class_string n w = (None, w1)"
      "add_plugins_for e d ps w1 = (r, w')"
proof (cases "py_getattr e w d")
  case None
  with assms show ?thesis by (intro missing) simp_all
next
  case (Some target)
  obtain r1 w1 where a: "add_plugin e d target class_string n w = (r1, w1)"
    by (cases "add_plugin e d target class_string n w")
  show ?thesis
  proof (cases r1)
    case None
    with assms Some a show ?thesis by (intro continued [of target w1]) simp_all
  next
    case (Some err)
    with assms \<open>py_getattr e w d = Some target\<close> a show ?thesis
      by (intro raised [of target err]) simp_all
  qed
qed

lemma add_plugins_for_attrs:
  "add_plugins_for e d ps w = (r, w') \<Longrightarrow> attrs w' = attrs w"
proof (induction ps arbitrary: w)
  case Nil
  then show ?case by simp
next
  case (Cons p ps)
  obtain n class_string where p: "p = (n, class_string)" by (cases p)
  from Cons.prems [unfolded p] show ?case
  proof (cases rule: add_plugins_for_step)
    case missing
    then show ?thesis by simp
  next
    case (raised target err)
    from add_plugin_effect [OF raised(2)] show ?thesis by simp
  next
    case (continued target w1)
    from add_plugin_effect [OF continued(2)] Cons.IH [OF continued(3)] show ?thesis by simp
  qed
qed

lemma add_plugins_for_lookup:
  "add_plugins_for e d ps w = (r, w') \<Longrightarrow> py_getattr e w d \<noteq> None \<Longrightarrow>
     r \<noteq> Some (AttributeError ''Cihai'' x)"
proof (induction ps arbitrary: w)
  case Nil
  then show ?case by simp
next
  case (Cons p ps)
  obtain n class_string where p: "p = (n, class_string)" by (cases p)
  from Cons.prems(1) [unfolded p] show ?case
  proof (cases rule: add_plugins_for_step)
    case missing
    with Cons.prems(2) show ?thesis by simp
  next
    case (raised target err)
    from add_plugin_effect [OF raised(2), of x] raised(3) show ?thesis by simp
  next
    case (continued target w1)
    from add_plugin_effect [OF continued(2)] have "attrs w1 = attrs w" by simp
    then have "py_getattr e w1 d = py_getattr e w d" by (rule py_getattr_attrs_cong)
    with Cons.prems(2) Cons.IH [OF continued(3)] show ?thesis by simp
  qed
qed

lemma add_plugins_for_trace:
  "add_plugins_for e d ps w = (r, w') \<Longrightarrow>
     \<exists>ns. trace w' = trace w @ map (EvAddPlugin d) ns \<and>
          (ns \<noteq> [] \<longrightarrow> (\<exists>ref. py_getattr e w d = Some (VInst ref)))"
proof (induction ps arbitrary: w)
  case Nil
  then have "trace w' = trace w @ map (EvAddPlugin d) []" by simp
  then show ?case by blast
next
  case (Cons p ps)
  obtain n class_string where p: "p = (n, class_string)" by (cases p)
  from Cons.prems [unfolded p] show ?case
  proof (cases rule: add_plugins_for_step)
    case missing
    then have "trace w' = trace w @ map (EvAddPlugin d) []" by simp
    then show ?thesis by blast
  next
    case (raised target err)
    from add_plugin_effect [OF raised(2)]
    have "trace w' = trace w \<or>
          trace w' = trace w @ [EvAddPlugin d n] \<and> (\<exists>ref. target = VInst ref)" by simp
    then show ?thesis
    proof
      assume "trace w' = trace w"
      then have "trace w' = trace w @ map (EvAddPlugin d) []" by simp
      then show ?thesis by blast
    next
      assume a: "trace w' = trace w @ [EvAddPlugin d n] \<and> (\<exists>ref. target = VInst ref)"
      then have "trace w' = trace w @ map (EvAddPlugin d) [n]" by simp
      moreover from a raised(1) have "\<exists>ref. py_getattr e w d = Some (VInst ref)" by auto
      ultimately show ?thesis by blast
    qed
  next
    case (continued target w1)
    from add_plugin_effect [OF continued(2)]
    have a: "attrs w1 = attrs w"
      and t: "trace w1 = trace w \<or>
          trace w1 = trace w @ [EvAddPlugin d n] \<and> (\<exists>ref. target = VInst ref)" by simp_all
    from a have g: "py_getattr e w1 d = py_getattr e w d" by (rule py_getattr_attrs_cong)
    from Cons.IH [OF continued(3)] g obtain ns where
      ns: "trace w' = trace w1 @ map (EvAddPlugin d) ns"
      "ns \<noteq> [] \<longrightarrow> (\<exists>ref. py_getattr e w d = Some (VInst ref))" by auto
    from t show ?thesis
    proof
      assume "trace w1 = trace w"
      with ns show ?thesis by auto
    next
      assume b: "trace w1 = trace w @ [EvAddPlugin d n] \<and> (\<exists>ref. target = VInst ref)"
      with ns(1) have "trace w' = trace w @ map (EvAddPlugin d) (n # ns)" by simp
      moreover from b continued(1) have "\<exists>ref. py_getattr e w d = Some (VInst ref)" by auto
      ultimately show ?thesis by blast
    qed
  qed
qed


text \<open>One iteration of the outer plugin loop.\<close>

lemma load_plugins_step:
  assumes "load_plugins e ((d, plugins) # rest) w = (r, w')"
  obtains (not_mapping) err where "cfg_items plugins = Inl err" "r = Some err" "w' = w"
  | (raised) ps err where "cfg_items plugins = Inr ps"
      "add_plugins_for e d ps w = (Some err, w')" "r = Some err"
  | (continued) ps w1 where "cfg_items plugins = Inr ps"
      "add_plugins_for e d ps w = (None, w1)" "load_plugins e rest w1 = (r, w')"
proof (cases "cfg_items plugins")
  case (Inl err)
  with assms show ?thesis by (intro not_mapping [of err]) simp_all
next
  case (Inr ps)
  obtain r1 w1 where a: "add_plugins_for e d ps w = (r1, w1)"
    by (cases "add_plugins_for e d ps w")
  show ?thesis
  proof (cases r1)
    case None
    with assms Inr a show ?thesis by (intro continued [of ps w1]) simp_all
  next
    case (Some err)
    with assms Inr a show ?thesis by (intro raised [of ps err]) simp_all
  qed
qed

lemma cfg_items_error: "cfg_items c = Inl err \<Longrightarrow> err \<noteq> AttributeError ''Cihai'' x"
  by (cases c) (auto simp add: cfg_items_def)

lemma load_plugins_attrs:
  "load_plugins e pl w = (r, w') \<Longrightarrow> attrs w' = attrs w"
proof (induction pl arbitrary: w)
  case Nil
  then show ?case by simp
next
  case (Cons p pl)
  obtain d plugins where p: "p = (d, plugins)" by (cases p)
  from Cons.prems [unfolded p] show ?case
  proof (cases rule: load_plugins_step)
    case (not_mapping err)
    then show ?thesis by simp
  next
    case (raised ps err)
    from add_plugins_for_attrs [OF raised(2)] show ?thesis .
  next
    case (continued ps w1)
    from add_plugins_for_attrs [OF continued(2)] Cons.IH [OF continued(3)]
    show ?thesis by simp
  qed
qed

lemma load_plugins_lookup:
  "load_plugins e pl w = (r, w') \<Longrightarrow> \<forall>d \<in> fst ` set pl. py_getattr e w d \<noteq> None \<Longrightarrow>
     r \<noteq> Some (AttributeError ''Cihai'' x)"
proof (induction pl arbitrary: w)
  case Nil
  then show ?case by simp
next
  case (Cons p pl)
  obtain d plugins where p: "p = (d, plugins)" by (cases p)
  from Cons.prems(2) p have here: "py_getattr e w d \<noteq> None"
    and later: "\<forall>d \<in> fst ` set pl. py_getattr e w d \<noteq> None" by simp_all
  from Cons.prems(1) [unfolded p] show ?case
  proof (cases rule: load_plugins_step)
    case (not_mapping err)
    with cfg_items_error [OF not_mapping(1), of x] show ?thesis by simp
  next
    case (raised ps err)
    from add_plugins_for_lookup [OF raised(2) here, of x] raised(3) show ?thesis by simp
  next
    case (continued ps w1)
    from add_plugins_for_attrs [OF continued(2)]
    have "\<And>d. py_getattr e w1 d = py_getattr e w d" by (rule py_getattr_attrs_cong)
    with later have "\<forall>d \<in> fst ` set pl. py_getattr e w1 d \<noteq> None" by simp
    from Cons.IH [OF continued(3) this] show ?thesis .
  qed
qed

lemma load_plugins_trace:
  "load_plugins e pl w = (r, w') \<Longrightarrow>
     \<exists>evs. trace w' = trace w @ map (case_prod EvAddPlugin) evs \<and>
           (\<forall>ev \<in> set evs. \<exists>ref. py_getattr e w (fst ev) = Some (VInst ref))"
proof (induction pl arbitrary: w)
  case Nil
  then have "trace w' = trace w @ map (case_prod EvAddPlugin) []" by simp
  then show ?case by (intro exI [of _ "[]"]) simp
next
  case (Cons p pl)
  obtain d plugins where p: "p = (d, plugins)" by (cases p)
  have inner: "\<exists>evs. trace w1 = trace w @ map (case_prod EvAddPlugin) evs \<and>
           (\<forall>ev \<in> set evs. \<exists>ref. py_getattr e w (fst ev) = Some (VInst ref))"
    if "add_plugins_for e d ps w = (r1, w1)" for ps r1 w1
  proof -
    from add_plugins_for_trace [OF that] obtain ns where
      ns: "trace w1 = trace w @ map (EvAddPlugin d) ns"
      "ns \<noteq> [] \<longrightarrow> (\<exists>ref. py_getattr e w d = Some (VInst ref))" by blast
    have "map (EvAddPlugin d) ns = map (case_prod EvAddPlugin) (map (Pair d) ns)" by simp
    with ns(1) have "trace w1 = trace w @ map (case_prod EvAddPlugin) (map (Pair d) ns)"
      by simp
    moreover have "\<forall>ev \<in> set (map (Pair d) ns). \<exists>ref. py_getattr e w (fst ev) = Some (VInst ref)"
      using ns(2) by auto
    ultimately show ?thesis by blast
  qed
  from Cons.prems [unfolded p] show ?case
  proof (cases rule: load_plugins_step)
    case (not_mapping err)
    then have "trace w' = trace w @ map (case_prod EvAddPlugin) []" by simp
    then show ?thesis by (intro exI [of _ "[]"]) simp
  next
    case (raised ps err)
    from inner [OF raised(2)] show ?thesis .
  next
    case (continued ps w1)
    from inner [OF continued(2)] obtain ev1 where
      e1: "trace w1 = trace w @ map (case_prod EvAddPlugin) ev1"
      "\<forall>ev \<in> set ev1. \<exists>ref. py_getattr e w (fst ev) = Some (VInst ref)" by blast
    from add_plugins_for_attrs [OF continued(2)]
    have g: "\<And>d. py_getattr e w1 d = py_getattr e w d" by (rule py_getattr_attrs_cong)
    from Cons.IH [OF continued(3)] g obtain ev2 where
      e2: "trace w' = trace w1 @ map (case_prod EvAddPlugin) ev2"
      "\<forall>ev \<in> set ev2. \<exists>ref. py_getattr e w (fst ev) = Some (VInst ref)" by auto
    from e1(1) e2(1) have "trace w' = trace w @ map (case_prod EvAddPlugin) (ev1 @ ev2)"
      by simp
    moreover from e1(2) e2(2)
    have "\<forall>ev \<in> set (ev1 @ ev2). \<exists>ref. py_getattr e w (fst ev) = Some (VInst ref)" by auto
    ultimately show ?thesis by blast
  qed
qed

lemma load_datasets_values:
  "load_datasets e ds w = (None, w') \<Longrightarrow>
     map_of (attrs w') n = map_of (attrs w) n \<or> (\<exists>ref. map_of (attrs w') n = Some (VInst ref))"
proof (induction ds arbitrary: w)
  case Nil
  then show ?case by simp
next
  case (Cons d ds)
  obtain namespace class_string where d: "d = (namespace, class_string)" by (cases d)
  from Cons.prems obtain v where g: "py_getattr e w ''add_dataset'' = Some v"
    by (cases "py_getattr e w ''add_dataset''") (simp_all add: d)
  with Cons.prems obtain m where v: "v = VClassAttr m"
    by (cases v) (simp_all add: d)
  obtain r w1 where a: "add_dataset e class_string namespace w = (r, w1)"
    by (cases "add_dataset e class_string namespace w")
  with Cons.prems g v have r: "r = None" and l: "load_datasets e ds w1 = (None, w')"
    by (cases r; simp add: d)+
  from add_dataset_returns [OF a [unfolded r]]
  have "attrs w1 = AList.update namespace (VInst (length (insts w))) (attrs w)" by blast
  then have "map_of (attrs w1) n = map_of (attrs w) n \<or>
      map_of (attrs w1) n = Some (VInst (length (insts w)))"
    by (simp add: update_conv')
  with Cons.IH [OF l] show ?case by auto
qed

lemma py_getattr_config: "py_getattr e w ''config'' = map_of (attrs w) ''config''"
  by (simp add: py_getattr_def class_attrs_def split: option.splits)

lemma py_getattr_of_attrs: "map_of (attrs w) name \<noteq> None \<Longrightarrow> py_getattr e w name \<noteq> None"
  by (auto simp add: py_getattr_def)

lemma self_config_get_error:
  "self_config_get e w key = Inl err \<Longrightarrow> py_getattr e w ''config'' \<noteq> None \<Longrightarrow>
     err \<noteq> AttributeError ''Cihai'' x"
proof -
  assume a: "self_config_get e w key = Inl err" and "py_getattr e w ''config'' \<noteq> None"
  then obtain v where v: "py_getattr e w ''config'' = Some v" by auto
  show ?thesis
  proof (cases v)
    case (VCfg c)
    with a v show ?thesis by (cases c) (auto simp add: self_config_get_def cfg_get_def)
  qed (use a v in \<open>auto simp add: self_config_get_def\<close>)
qed

lemma bootstrap_datasets_trace:
  "\<exists>ns. trace (snd (bootstrap_datasets e w)) = trace w @ map EvAddDataset ns"
proof (cases "self_config_get e w ''datasets''")
  case (Inl err)
  then have "trace (snd (bootstrap_datasets e w)) = trace w @ map EvAddDataset []"
    by (simp add: bootstrap_datasets_def)
  then show ?thesis by blast
next
  case (Inr dv)
  show ?thesis
  proof (cases "cfg_items dv")
    case (Inl err)
    with Inr have "trace (snd (bootstrap_datasets e w)) = trace w @ map EvAddDataset []"
      by (simp add: bootstrap_datasets_def)
    then show ?thesis by blast
  next
    case (Inr ds)
    with \<open>self_config_get e w ''datasets'' = Inr dv\<close>
    have "bootstrap_datasets e w = load_datasets e ds w"
      by (simp add: bootstrap_datasets_def)
    then show ?thesis using load_datasets_trace [of e ds w] by simp
  qed
qed

lemma bootstrap_plugins_effect:
  assumes "bootstrap_plugins e w = (r, w')"
  shows "attrs w' = attrs w \<and>
         (\<exists>evs. trace w' = trace w @ map (case_prod EvAddPlugin) evs \<and>
                (\<forall>ev \<in> set evs. \<exists>ref. py_getattr e w (fst ev) = Some (VInst ref)))"
proof -
  have none: ?thesis if "w' = w"
  proof -
    from that have "trace w' = trace w @ map (case_prod EvAddPlugin) []" by simp
    with that show ?thesis by (intro conjI exI [of _ "[]"]) simp_all
  qed
  show ?thesis
  proof (cases "self_config_get e w ''plugins''")
    case (Inl err)
    with assms have "w' = w" by (simp add: bootstrap_plugins_def)
    then show ?thesis by (rule none)
  next
    case (Inr pv)
    show ?thesis
    proof (cases "cfg_items pv")
      case (Inl err)
      with Inr assms have "w' = w" by (simp add: bootstrap_plugins_def)
      then show ?thesis by (rule none)
    next
      case (Inr ps)
      with \<open>self_config_get e w ''plugins'' = Inr pv\<close> assms
      have l: "load_plugins e ps w = (r, w')" by (simp add: bootstrap_plugins_def)
      from load_plugins_attrs [OF l] load_plugins_trace [OF l] show ?thesis by simp
    qed
  qed
qed


lemma load_datasets_complete:
  "load_datasets e ds w = (None, w') \<Longrightarrow>
     trace w' = trace w @ map EvAddDataset (map fst ds) \<and>
     (\<forall>n \<in> fst ` set ds. \<exists>ref. map_of (attrs w') n = Some (VInst ref))"
proof (induction ds arbitrary: w)
  case Nil
  then show ?case by simp
next
  case (Cons d ds)
  obtain namespace class_string where d: "d = (namespace, class_string)" by (cases d)
  from Cons.prems obtain v where g: "py_getattr e w ''add_dataset'' = Some v"
    by (cases "py_getattr e w ''add_dataset''") (simp_all add: d)
  with Cons.prems obtain m where v: "v = VClassAttr m"
    by (cases v) (simp_all add: d)
  obtain r w1 where a: "add_dataset e class_string namespace w = (r, w1)"
    by (cases "add_dataset e class_string namespace w")
  with Cons.prems g v have r: "r = None" and l: "load_datasets e ds w1 = (None, w')"
    by (cases r; simp add: d)+
  from add_dataset_returns [OF a [unfolded r]]
  have a1: "attrs w1 = AList.update namespace (VInst (length (insts w))) (attrs w)"
    and t1: "trace w1 = trace w @ [EvAddDataset namespace]" by blast+
  from a1 have here: "map_of (attrs w1) namespace = Some (VInst (length (insts w)))"
    by (simp add: update_conv')
  from load_datasets_values [OF l, of namespace] here
  have "\<exists>ref. map_of (attrs w') namespace = Some (VInst ref)" by auto
  with Cons.IH [OF l] t1 show ?case by (simp add: d)
qed

lemma py_getattr_found: "map_of (attrs w) n = Some v \<Longrightarrow> py_getattr e w n = Some v"
  by (simp add: py_getattr_def)

text \<open>
  C7.  In every run of \<^verbatim>\<open>Cihai.bootstrap\<close> the effects are first the attachments of
  datasets and then the calls of \<^verbatim>\<open>add_plugin\<close>, each of them made on an attribute of
  the application that refers to a dataset instance and is named by the plugin group's
  key; a plugin is added only after the dataset loop has run to its end.  When the
  configuration is a mapping and the dataset loop has run to its end, every dataset
  named in \<^verbatim>\<open>datasets\<close> has been attached, in the mapping's order, before the first
  plugin, and is an attribute of the application; if moreover every key of \<^verbatim>\<open>plugins\<close>
  appears among the keys of \<^verbatim>\<open>datasets\<close>, no lookup on the application object fails
  in the plugin loop.
\<close>

theorem C7_datasets_before_plugins:
  assumes "bootstrap e w = (r, w')"
  shows "(\<exists>ns evs. trace w' = trace w @ map EvAddDataset ns @ map (case_prod EvAddPlugin) evs \<and>
            (\<forall>ev \<in> set evs. \<exists>ref. py_getattr e w' (fst ev) = Some (VInst ref)) \<and>
            (evs \<noteq> [] \<longrightarrow> fst (bootstrap_datasets e w) = None)) \<and>
         (py_getattr e w ''config'' = Some (VCfg (Dict kv)) \<and>
          cfg_get (Dict kv) ''datasets'' = Inr (Dict ds) \<and>
          fst (bootstrap_datasets e w) = None \<longrightarrow>
            (\<exists>evs. trace w' = trace w @ map EvAddDataset (map fst ds)
                       @ map (case_prod EvAddPlugin) evs) \<and>
            (\<forall>n \<in> fst ` set ds. \<exists>ref. py_getattr e w' n = Some (VInst ref)) \<and>
            (cfg_get (Dict kv) ''plugins'' = Inr (Dict ps) \<and> fst ` set ps \<subseteq> fst ` set ds \<longrightarrow>
               (\<forall>x. r \<noteq> Some (AttributeError ''Cihai'' x))))"
proof
  obtain r1 w1 where d: "bootstrap_datasets e w = (r1, w1)"
    by (cases "bootstrap_datasets e w")
  from bootstrap_datasets_trace [of e w] d obtain ns where
    ns: "trace w1 = trace w @ map EvAddDataset ns" by auto
  show "\<exists>ns evs. trace w' = trace w @ map EvAddDataset ns @ map (case_prod EvAddPlugin) evs \<and>
            (\<forall>ev \<in> set evs. \<exists>ref. py_getattr e w' (fst ev) = Some (VInst ref)) \<and>
            (evs \<noteq> [] \<longrightarrow> fst (bootstrap_datasets e w) = None)"
  proof (cases r1)
    case (Some err)
    with assms d have "w' = w1" by (simp add: bootstrap_def)
    with ns have "trace w' = trace w @ map EvAddDataset ns @ map (case_prod EvAddPlugin) []"
      by simp
    then show ?thesis by (intro exI [of _ ns] exI [of _ "[]"]) simp
  next
    case None
    with assms d have p: "bootstrap_plugins e w1 = (r, w')" by (simp add: bootstrap_def)
    from bootstrap_plugins_effect [OF p] obtain evs where
      a: "attrs w' = attrs w1"
      and t: "trace w' = trace w1 @ map (case_prod EvAddPlugin) evs"
      and i: "\<forall>ev \<in> set evs. \<exists>ref. py_getattr e w1 (fst ev) = Some (VInst ref)" by blast
    from a have "\<And>d. py_getattr e w' d = py_getattr e w1 d" by (rule py_getattr_attrs_cong)
    with i have "\<forall>ev \<in> set evs. \<exists>ref. py_getattr e w' (fst ev) = Some (VInst ref)" by simp
    moreover from t ns
    have "trace w' = trace w @ map EvAddDataset ns @ map (case_prod EvAddPlugin) evs" by simp
    moreover from None d have "fst (bootstrap_datasets e w) = None" by simp
    ultimately show ?thesis by blast
  qed
next
  show "py_getattr e w ''config'' = Some (VCfg (Dict kv)) \<and>
          cfg_get (Dict kv) ''datasets'' = Inr (Dict ds) \<and>
          fst (bootstrap_datasets e w) = None \<longrightarrow>
            (\<exists>evs. trace w' = trace w @ map EvAddDataset (map fst ds)
                       @ map (case_prod EvAddPlugin) evs) \<and>
            (\<forall>n \<in> fst ` set ds. \<exists>ref. py_getattr e w' n = Some (VInst ref)) \<and>
            (cfg_get (Dict kv) ''plugins'' = Inr (Dict ps) \<and> fst ` set ps \<subseteq> fst ` set ds \<longrightarrow>
               (\<forall>x. r \<noteq> Some (AttributeError ''Cihai'' x)))"
  proof (intro impI)
    assume h: "py_getattr e w ''config'' = Some (VCfg (Dict kv)) \<and>
          cfg_get (Dict kv) ''datasets'' = Inr (Dict ds) \<and>
          fst (bootstrap_datasets e w) = None"
    then obtain w1 where d: "bootstrap_datasets e w = (None, w1)"
      by (cases "bootstrap_datasets e w") simp
    with assms have p: "bootstrap_plugins e w1 = (r, w')" by (simp add: bootstrap_def)
    from h have "self_config_get e w ''datasets'' = Inr (Dict ds)"
      by (simp add: self_config_get_def)
    with d have l: "load_datasets e ds w = (None, w1)"
      by (simp add: bootstrap_datasets_def cfg_items_def)
    from load_datasets_complete [OF l]
    have t1: "trace w1 = trace w @ map EvAddDataset (map fst ds)"
      and att: "\<forall>n \<in> fst ` set ds. \<exists>ref. map_of (attrs w1) n = Some (VInst ref)" by simp_all
    from bootstrap_plugins_effect [OF p] obtain evs where
      a: "attrs w' = attrs w1"
      and t: "trace w' = trace w1 @ map (case_prod EvAddPlugin) evs" by blast
    from a have same: "\<And>d. py_getattr e w' d = py_getattr e w1 d"
      by (rule py_getattr_attrs_cong)
    from t t1 have "trace w' = trace w @ map EvAddDataset (map fst ds)
                       @ map (case_prod EvAddPlugin) evs" by simp
    then have order: "\<exists>evs. trace w' = trace w @ map EvAddDataset (map fst ds)
                       @ map (case_prod EvAddPlugin) evs" by (rule exI)
    have attached: "\<forall>n \<in> fst ` set ds. \<exists>ref. py_getattr e w' n = Some (VInst ref)"
    proof
      fix n assume "n \<in> fst ` set ds"
      with att obtain ref where "map_of (attrs w1) n = Some (VInst ref)" by blast
      then have "py_getattr e w1 n = Some (VInst ref)" by (rule py_getattr_found)
      with same show "\<exists>ref. py_getattr e w' n = Some (VInst ref)" by simp
    qed
    have found: "\<forall>x. r \<noteq> Some (AttributeError ''Cihai'' x)"
      if hp: "cfg_get (Dict kv) ''plugins'' = Inr (Dict ps) \<and> fst ` set ps \<subseteq> fst ` set ds"
    proof
      fix x
      from h have c0: "map_of (attrs w) ''config'' = Some (VCfg (Dict kv))"
        by (simp add: py_getattr_config)
      from load_datasets_values [OF l, of "''config''"] c0
      consider (same) "map_of (attrs w1) ''config'' = Some (VCfg (Dict kv))"
        | (hidden) ref where "map_of (attrs w1) ''config'' = Some (VInst ref)" by auto
      then show "r \<noteq> Some (AttributeError ''Cihai'' x)"
      proof cases
        case hidden
        then have "self_config_get e w1 ''plugins'' = Inl (AttributeError ''dataset'' ''get'')"
          by (simp add: self_config_get_def py_getattr_config)
        with p show ?thesis by (auto simp add: bootstrap_plugins_def)
      next
        case same
        with hp have "self_config_get e w1 ''plugins'' = Inr (Dict ps)"
          by (simp add: self_config_get_def py_getattr_config)
        with p have lp: "load_plugins e ps w1 = (r, w')"
          by (simp add: bootstrap_plugins_def cfg_items_def)
        have "\<forall>d \<in> fst ` set ps. py_getattr e w1 d \<noteq> None"
        proof
          fix d assume "d \<in> fst ` set ps"
          with hp have "d \<in> fst ` set ds" by blast
          with att obtain ref where "map_of (attrs w1) d = Some (VInst ref)" by blast
          then show "py_getattr e w1 d \<noteq> None" by (simp add: py_getattr_found)
        qed
        from load_plugins_lookup [OF lp this] show ?thesis .
      qed
    qed
    show "(\<exists>evs. trace w' = trace w @ map EvAddDataset (map fst ds)
                       @ map (case_prod EvAddPlugin) evs) \<and>
            (\<forall>n \<in> fst ` set ds. \<exists>ref. py_getattr e w' n = Some (VInst ref)) \<and>
            (cfg_get (Dict kv) ''plugins'' = Inr (Dict ps) \<and> fst ` set ps \<subseteq> fst ` set ds \<longrightarrow>
               (\<forall>x. r \<noteq> Some (AttributeError ''Cihai'' x)))"
    proof (intro conjI impI)
      show "\<exists>evs. trace w' = trace w @ map EvAddDataset (map fst ds)
                       @ map (case_prod EvAddPlugin) evs" by (rule order)
      show "\<forall>n \<in> fst ` set ds. \<exists>ref. py_getattr e w' n = Some (VInst ref)" by (rule attached)
      assume "cfg_get (Dict kv) ''plugins'' = Inr (Dict ps) \<and> fst ` set ps \<subseteq> fst ` set ds"
      then show "\<forall>x. r \<noteq> Some (AttributeError ''Cihai'' x)" by (rule found)
    qed
  qed
qed


theorem C7_datasets_before_plugins_witness:
  "bootstrap example_env example_app = (None, snd (bootstrap example_env example_app)) \<and>
   trace (snd (bootstrap example_env example_app))
     = [EvAddDataset ''unihan'', EvAddPlugin ''unihan'' ''variants''] \<and>
   (\<exists>evs. trace (snd (bootstrap example_env example_app))
        = trace example_app @ map EvAddDataset [''unihan''] @ map (case_prod EvAddPlugin) evs) \<and>
   (\<exists>ref. py_getattr example_env (snd (bootstrap example_env example_app)) ''unihan''
        = Some (VInst ref)) \<and>
   (\<forall>x. fst (bootstrap example_env example_app) \<noteq> Some (AttributeError ''Cihai'' x))"
proof -
  let ?kv = "[(''datasets'', Dict [(''unihan'', Str ''cihai.data.unihan.dataset.Unihan'')]),
              (''plugins'', Dict [(''unihan'',
                 Dict [(''variants'', Str ''cihai.data.unihan.dataset.UnihanVariants'')])]),
              (''debug'', Other 0),
              (''database'', Dict [(''url'', Str ''sqlite:///{user_data_dir}/cihai.db'')])]"
  let ?ds = "[(''unihan'', Str ''cihai.data.unihan.dataset.Unihan'')]"
  let ?ps = "[(''unihan'', Dict [(''variants'', Str ''cihai.data.unihan.dataset.UnihanVariants'')])]"
  let ?w' = "snd (bootstrap example_env example_app)"
  have b: "bootstrap example_env example_app = (None, ?w')"
    by code_simp
  have t: "trace ?w' = [EvAddDataset ''unihan'', EvAddPlugin ''unihan'' ''variants'']"
    by code_simp
  have 1: "py_getattr example_env example_app ''config'' = Some (VCfg (Dict ?kv))"
    by code_simp
  have 2: "cfg_get (Dict ?kv) ''datasets'' = Inr (Dict ?ds)" by code_simp
  have 3: "cfg_get (Dict ?kv) ''plugins'' = Inr (Dict ?ps)" by code_simp
  have 4: "fst ` set ?ps \<subseteq> fst ` set ?ds" by simp
  have 5: "fst (bootstrap_datasets example_env example_app) = None" by code_simp
  note run = C7_datasets_before_plugins [OF b, of ?kv ?ds ?ps]
  from run 1 2 5
  have order: "\<exists>evs. trace ?w' = trace example_app @ map EvAddDataset (map fst ?ds)
                  @ map (case_prod EvAddPlugin) evs"
    and attached: "\<forall>n \<in> fst ` set ?ds. \<exists>ref. py_getattr example_env ?w' n = Some (VInst ref)"
    and found: "cfg_get (Dict ?kv) ''plugins'' = Inr (Dict ?ps) \<and> fst ` set ?ps \<subseteq> fst ` set ?ds
        \<longrightarrow> (\<forall>x. (None :: error option) \<noteq> Some (AttributeError ''Cihai'' x))"
    by blast+
  from order have o: "\<exists>evs. trace ?w' = trace example_app @ map EvAddDataset [''unihan'']
                  @ map (case_prod EvAddPlugin) evs" by simp
  from attached have a: "\<exists>ref. py_getattr example_env ?w' ''unihan'' = Some (VInst ref)"
    by simp
  from found 3 4 have "\<forall>x. (None :: error option) \<noteq> Some (AttributeError ''Cihai'' x)"
    by blast
  with b have f: "\<forall>x. fst (bootstrap example_env example_app) \<noteq> Some (AttributeError ''Cihai'' x)"
    by (metis fst_conv)
  from b t o a f show ?thesis by (intro conjI)
qed

section \<open>The order of the effects of an invocation\<close>

lemma staged_Nil [simp]: "staged lo hi []"
  by (simp add: staged_def)

lemma staged_single: "lo \<le> stage ev \<Longrightarrow> stage ev \<le> hi \<Longrightarrow> staged lo hi [ev]"
  by (simp add: staged_def)

lemma staged_widen: "staged a b evs \<Longrightarrow> a' \<le> a \<Longrightarrow> b \<le> b' \<Longrightarrow> staged a' b' evs"
  by (fastforce simp add: staged_def)

lemma staged_append:
  "staged a b xs \<Longrightarrow> staged c d ys \<Longrightarrow> a \<le> b \<Longrightarrow> b \<le> c \<Longrightarrow> c \<le> d \<Longrightarrow>
     staged a d (xs @ ys)"
  by (fastforce simp add: staged_def sorted_append)

lemma staged_datasets: "staged 6 6 (map EvAddDataset ns)"
  by (induction ns) (auto simp add: staged_def)

lemma staged_plugins: "staged 7 7 (map (case_prod EvAddPlugin) evs)"
  by (induction evs) (auto simp add: staged_def)

lemma staged_prints: "staged 13 13 (map EvPrint ls)"
  by (induction ls) (auto simp add: staged_def)

lemma bootstrap_staged:
  "\<exists>evs. trace (snd (bootstrap e w)) = trace w @ evs \<and> staged 6 7 evs"
proof -
  obtain r1 w1 where d: "bootstrap_datasets e w = (r1, w1)"
    by (cases "bootstrap_datasets e w")
  from bootstrap_datasets_trace [of e w] d obtain ns where
    ns: "trace w1 = trace w @ map EvAddDataset ns" by auto
  show ?thesis
  proof (cases r1)
    case (Some err)
    with d have "snd (bootstrap e w) = w1" by (simp add: bootstrap_def)
    with ns staged_widen [OF staged_datasets [of ns], of 6 7] show ?thesis by auto
  next
    case None
    obtain r w' where p: "bootstrap_plugins e w1 = (r, w')"
      by (cases "bootstrap_plugins e w1")
    with None d have b: "snd (bootstrap e w) = w'" by (simp add: bootstrap_def)
    from bootstrap_plugins_effect [OF p] obtain evs where
      t: "trace w' = trace w1 @ map (case_prod EvAddPlugin) evs" by blast
    have "staged 6 7 (map EvAddDataset ns @ map (case_prod EvAddPlugin) evs)"
      by (rule staged_append [OF staged_datasets staged_plugins]) simp_all
    with b t ns show ?thesis by auto
  qed
qed

lemma Cihai_init_staged:
  "\<exists>evs. trace (snd (Cihai_init e config unihan w)) = trace w @ evs \<and> staged 2 7 evs"
proof -
  define c1 where "c1 = expand_config e (Cihai_config e config unihan)"
  define pre where "pre = [EvMergeConfig, EvExpandConfig] @
     (if user_data_dir_exists e then [] else [EvMakedirs])"
  define w3 where "w3 = w\<lparr>attrs := [(''config'', VCfg c1)], trace := trace w @ pre\<rparr>"
  have pre: "staged 2 4 pre" by (simp add: pre_def staged_def)
  have init: "Cihai_init e config unihan w =
     (case Database e c1 of
        Inl msg \<Rightarrow> (Some (ExternalError msg), w3)
      | Inr d \<Rightarrow> bootstrap e (emit EvDatabase (w3\<lparr>attrs := AList.update ''sql'' (VDb d) (attrs w3)\<rparr>)))"
    by (simp add: Cihai_init_def Let_def emit_def c1_def w3_def pre_def split: sum.splits)
  show ?thesis
  proof (cases "Database e c1")
    case (Inl msg)
    with init have "trace (snd (Cihai_init e config unihan w)) = trace w @ pre"
      by (simp add: w3_def)
    with staged_widen [OF pre, of 2 7] show ?thesis by auto
  next
    case (Inr d)
    define w4 where "w4 = emit EvDatabase (w3\<lparr>attrs := AList.update ''sql'' (VDb d) (attrs w3)\<rparr>)"
    have t4: "trace w4 = trace w @ pre @ [EvDatabase]"
      by (simp add: w4_def w3_def emit_def)
    from Inr init have "Cihai_init e config unihan w = bootstrap e w4" by (simp add: w4_def)
    with bootstrap_staged [of e w4] obtain evs where
      evs: "trace (snd (Cihai_init e config unihan w)) = trace w4 @ evs" "staged 6 7 evs" by auto
    have "staged 2 5 (pre @ [EvDatabase])"
      by (rule staged_append [OF pre staged_single [of 5 EvDatabase 5]]) simp_all
    then have "staged 2 7 ((pre @ [EvDatabase]) @ evs)"
      by (rule staged_append [OF _ evs(2)]) simp_all
    with evs(1) t4 show ?thesis by auto
  qed
qed


lemma from_file_staged:
  "\<exists>evs. trace (snd (from_file e config_path w)) = trace w @ evs \<and> staged 1 7 evs"
proof -
  have direct: ?thesis if "from_file e config_path w = Cihai_init e c True w" for c
    using that Cihai_init_staged [of e c True w] staged_widen [of 2 7 _ 1 7] by auto
  have unchanged: ?thesis if "snd (from_file e config_path w) = w"
    using that by (intro exI [of _ "[]"]) simp
  show ?thesis
  proof (cases config_path)
    case None
    then have "from_file e config_path w = Cihai_init e (Some (Dict [])) True w"
      by (simp add: from_file_def)
    then show ?thesis by (rule direct)
  next
    case (Some p)
    show ?thesis
    proof (cases "p = []")
      case True
      with Some have "from_file e config_path w = Cihai_init e (Some (Dict [])) True w"
        by (simp add: from_file_def)
      then show ?thesis by (rule direct)
    next
      case False
      show ?thesis
      proof (cases "path_exists e p \<and> list_ex (\<lambda>ext. suffix ext p) config_extensions")
        case False
        with Some \<open>p \<noteq> []\<close> have "snd (from_file e config_path w) = w"
          by (auto simp add: from_file_def)
        then show ?thesis by (rule unchanged)
      next
        case True
        show ?thesis
        proof (cases "import_config e p")
          case (Inl msg)
          with Some \<open>p \<noteq> []\<close> True have "snd (from_file e config_path w) = w"
            by (simp add: from_file_def)
          then show ?thesis by (rule unchanged)
        next
          case (Inr custom_config)
          define w1 where "w1 = emit (EvReadConfigFile p) w"
          from Inr Some \<open>p \<noteq> []\<close> True
          have "from_file e config_path w
                  = Cihai_init e (Some (merge_dict (Dict []) custom_config)) True w1"
            by (simp add: from_file_def w1_def)
          with Cihai_init_staged [of e "Some (merge_dict (Dict []) custom_config)" True w1]
          obtain evs where evs: "trace (snd (from_file e config_path w)) = trace w1 @ evs"
            "staged 2 7 evs" by auto
          have "staged 1 7 ([EvReadConfigFile p] @ evs)"
            by (rule staged_append [OF staged_single [of 1 _ 1] evs(2)]) simp_all
          with evs(1) show ?thesis by (auto simp add: w1_def emit_def)
        qed
      qed
    qed
  qed
qed

lemma cli_store_staged:
  "\<exists>evs. trace (snd (cli_store e w)) = trace w @ evs \<and> staged 8 11 evs"
proof -
  define w1 where "w1 = emit EvStoreCheck w"
  define w2 where "w2 = emit (EvEcho ''Bootstrapping Unihan database'') w1"
  define w3 where "w3 = emit EvBootstrapUnihan w2"
  define w4 where "w4 = emit EvReflectDb w3"
  have t1: "trace w1 = trace w @ [EvStoreCheck]" by (simp add: w1_def emit_def)
  have t2: "trace w2 = trace w @ [EvStoreCheck, EvEcho ''Bootstrapping Unihan database'']"
    by (simp add: w2_def t1 emit_def)
  have t3: "trace w3 = trace w @
      [EvStoreCheck, EvEcho ''Bootstrapping Unihan database'', EvBootstrapUnihan]"
    by (simp add: w3_def t2 emit_def)
  have t4: "trace w4 = trace w @
      [EvStoreCheck, EvEcho ''Bootstrapping Unihan database'', EvBootstrapUnihan, EvReflectDb]"
    by (simp add: w4_def t3 emit_def)
  have s1: "staged 8 11 [EvStoreCheck]"
    and s2: "staged 8 11 [EvStoreCheck, EvEcho ''Bootstrapping Unihan database'']"
    and s3: "staged 8 11 [EvStoreCheck, EvEcho ''Bootstrapping Unihan database'', EvBootstrapUnihan]"
    and s4: "staged 8 11
      [EvStoreCheck, EvEcho ''Bootstrapping Unihan database'', EvBootstrapUnihan, EvReflectDb]"
    by (simp_all add: staged_def)
  have "snd (cli_store e w) = w1 \<or> snd (cli_store e w) = w2 \<or>
        snd (cli_store e w) = w3 \<or> snd (cli_store e w) = w4"
    unfolding cli_store_def Let_def w1_def [symmetric] w2_def [symmetric]
      w3_def [symmetric] w4_def [symmetric]
    by (simp split: option.splits sum.splits pyval.splits)
  with t1 t2 t3 t4 s1 s2 s3 s4 show ?thesis by auto
qed

lemma print_columns_trace:
  "\<exists>ls. trace (snd (print_columns e query cs w)) = trace w @ map EvPrint ls"
proof (induction cs arbitrary: w)
  case Nil
  show ?case by (intro exI [of _ "[]"]) simp
next
  case (Cons c cs)
  show ?case
  proof (cases "map_of query c")
    case None
    then show ?thesis by (intro exI [of _ "[]"]) simp
  next
    case (Some v)
    define w1 where "w1 =
      (if sql_truthy v
       then emit (EvPrint (format_line c
              (if PY2 e then encode_utf8 e (sql_text v) else sql_text v))) w
       else w)"
    obtain l1 where l1: "trace w1 = trace w @ map EvPrint l1"
    proof (cases "sql_truthy v")
      case True
      then have "trace w1 = trace w @ map EvPrint
          [format_line c (if PY2 e then encode_utf8 e (sql_text v) else sql_text v)]"
        by (simp add: w1_def emit_def)
      then show ?thesis by (rule that)
    next
      case False
      then have "trace w1 = trace w @ map EvPrint []" by (simp add: w1_def)
      then show ?thesis by (rule that)
    qed
    from Some have "print_columns e query (c # cs) w = print_columns e query cs w1"
      by (simp add: w1_def)
    moreover from Cons [of w1] obtain l2 where
      "trace (snd (print_columns e query cs w1)) = trace w1 @ map EvPrint l2" by blast
    ultimately have "trace (snd (print_columns e query (c # cs) w))
        = trace w @ map EvPrint (l1 @ l2)"
      using l1 by simp
    then show ?thesis by blast
  qed
qed

lemma command_info_staged:
  "\<exists>evs. trace (snd (command_info e w ch)) = trace w @ evs \<and> staged 12 13 evs"
proof -
  have unchanged: ?thesis if "snd (command_info e w ch) = w"
    using that by (intro exI [of _ "[]"]) simp
  define w1 where "w1 = emit (EvQuery ch) w"
  have queried: ?thesis if "trace (snd (command_info e w ch)) = trace w1 @ map EvPrint ls" for ls
  proof -
    have "staged 12 13 ([EvQuery ch] @ map EvPrint ls)"
      by (rule staged_append [OF staged_single [of 12 _ 12] staged_prints]) simp_all
    with that show ?thesis by (auto simp add: w1_def emit_def)
  qed
  show ?thesis
  proof (cases "\<exists>classes t. py_getattr e w ''base'' = Some (VBase classes) \<and>
      map_of classes ''Unihan'' = Some t \<and> py_getattr e w ''session'' = Some VSession \<and>
      ''char'' \<in> set (columns t)")
    case False
    then have "snd (command_info e w ch) = w"
      by (auto simp add: command_info_def split: option.splits pyval.splits)
    then show ?thesis by (rule unchanged)
  next
    case True
    then obtain classes t where h: "py_getattr e w ''base'' = Some (VBase classes)"
      "map_of classes ''Unihan'' = Some t" "py_getattr e w ''session'' = Some VSession"
      "''char'' \<in> set (columns t)" by blast
    show ?thesis
    proof (cases "first_row t ch")
      case None
      with h have "snd (command_info e w ch) = w1"
        by (simp add: command_info_def Let_def w1_def)
      then have "trace (snd (command_info e w ch)) = trace w1 @ map EvPrint []" by simp
      then show ?thesis by (rule queried)
    next
      case (Some query)
      with h have "command_info e w ch = print_columns e query (columns t) w1"
        by (simp add: command_info_def Let_def w1_def)
      with print_columns_trace [of e query "columns t" w1] obtain ls where
        "trace (snd (command_info e w ch)) = trace w1 @ map EvPrint ls" by auto
      then show ?thesis by (rule queried)
    qed
  qed
qed


lemma cli_staged:
  "\<exists>evs. trace (snd (cli e config log_level w)) = trace w @ evs \<and> staged 0 11 evs"
proof -
  have unchanged: ?thesis if "snd (cli e config log_level w) = w"
    using that by (intro exI [of _ "[]"]) simp
  show ?thesis
  proof (cases "case config of None \<Rightarrow> False | Some p \<Rightarrow> \<not> path_exists e p")
    case True
    then have "snd (cli e config log_level w) = w" by (simp add: cli_def)
    then show ?thesis by (rule unchanged)
  next
    case False
    show ?thesis
    proof (cases "setup_logger (root_logger w) None (upper log_level)")
      case (Inl err)
      with False have "snd (cli e config log_level w) = w" by (simp add: cli_def)
      then show ?thesis by (rule unchanged)
    next
      case (Inr l)
      define w1 where "w1 = emit EvSetupLogger (w\<lparr>root_logger := l\<rparr>)"
      define built where "built =
        (if config \<noteq> None \<and> config \<noteq> Some [] then from_file e config w1
         else Cihai_init e None True w1)"
      have t1: "trace w1 = trace w @ [EvSetupLogger]" by (simp add: w1_def emit_def)
      have "\<exists>evs. trace (snd built) = trace w1 @ evs \<and> staged 1 7 evs"
        using from_file_staged [of e config w1] Cihai_init_staged [of e None True w1]
          staged_widen [of 2 7 _ 1 7]
        by (auto simp add: built_def)
      then obtain ev2 where ev2: "trace (snd built) = trace w1 @ ev2" "staged 1 7 ev2" by blast
      have s12: "staged 0 7 ([EvSetupLogger] @ ev2)"
        by (rule staged_append [OF staged_single [of 0 _ 0] ev2(2)]) simp_all
      obtain r2 w2 where b: "built = (r2, w2)" by (cases built)
      have c: "cli e config log_level w =
          (case built of (Some err, w2) \<Rightarrow> (Some err, w2) | (None, w2) \<Rightarrow> cli_store e w2)"
        using False Inr by (simp add: cli_def Let_def w1_def built_def)
      show ?thesis
      proof (cases r2)
        case (Some err)
        with b c have "snd (cli e config log_level w) = w2" by simp
        with b ev2(1) t1 s12 staged_widen [of 0 7 _ 0 11] show ?thesis by auto
      next
        case None
        with b c have "cli e config log_level w = cli_store e w2" by simp
        with cli_store_staged [of e w2] obtain ev3 where
          ev3: "trace (snd (cli e config log_level w)) = trace w2 @ ev3" "staged 8 11 ev3"
          by auto
        have "staged 0 11 (([EvSetupLogger] @ ev2) @ ev3)"
          by (rule staged_append [OF s12 ev3(2)]) simp_all
        with ev3(1) b ev2(1) t1 show ?thesis by auto
      qed
    qed
  qed
qed

lemma invoke_info_staged:
  "\<exists>evs. trace (snd (invoke_info e config log_level ch w)) = trace w @ evs \<and> staged 0 13 evs"
proof -
  obtain r1 w1 where c: "cli e config log_level w = (r1, w1)"
    by (cases "cli e config log_level w")
  from cli_staged [of e config log_level w] c obtain ev1 where
    ev1: "trace w1 = trace w @ ev1" "staged 0 11 ev1" by auto
  show ?thesis
  proof (cases r1)
    case (Some err)
    with c have "snd (invoke_info e config log_level ch w) = w1"
      by (simp add: invoke_info_def)
    with ev1 staged_widen [of 0 11 _ 0 13] show ?thesis by auto
  next
    case None
    with c have "invoke_info e config log_level ch w = command_info e w1 ch"
      by (simp add: invoke_info_def)
    with command_info_staged [of e w1 ch] obtain ev2 where
      ev2: "trace (snd (invoke_info e config log_level ch w)) = trace w1 @ ev2"
      "staged 12 13 ev2" by auto
    have "staged 0 13 (ev1 @ ev2)"
      by (rule staged_append [OF ev1(2) ev2(2)]) simp_all
    with ev2(1) ev1(1) show ?thesis by auto
  qed
qed

lemma sorted_stage_between:
  "sorted (map stage (xs @ a # ys @ b # zs)) \<Longrightarrow> stage a \<le> stage b"
  by (simp add: sorted_append)

text \<open>
  C3 (as amended).  The effects of an invocation \<^verbatim>\<open>cihai info ch\<close> occur in this order:
  the logger is set up from the flags; the configuration file is read; the application
  object is constructed, which merges and expands the configuration, creates the data
  directory and the database handle, and loads the configured datasets and then their
  plugins; only after the construction does the CLI check the store, announce and run
  the bootstrap, and reflect the schema; and only then does the command query the table
  and print columns.  In particular no dataset or plugin is loaded after the store has
  been checked or bootstrapped.
\<close>

theorem C3_invocation_order:
  "\<exists>evs. trace (snd (invoke_info e config log_level ch w)) = trace w @ evs \<and>
      sorted (map stage evs) \<and>
      \<not> (\<exists>xs ys zs n. evs = xs @ EvStoreCheck # ys @ EvAddDataset n # zs) \<and>
      \<not> (\<exists>xs ys zs d n. evs = xs @ EvStoreCheck # ys @ EvAddPlugin d n # zs) \<and>
      \<not> (\<exists>xs ys zs n. evs = xs @ EvBootstrapUnihan # ys @ EvAddDataset n # zs) \<and>
      \<not> (\<exists>xs ys zs d n. evs = xs @ EvBootstrapUnihan # ys @ EvAddPlugin d n # zs)"
proof -
  from invoke_info_staged [of e config log_level ch w] obtain evs where
    evs: "trace (snd (invoke_info e config log_level ch w)) = trace w @ evs"
    and s: "sorted (map stage evs)" by (auto simp add: staged_def)
  have "\<not> (\<exists>xs ys zs n. evs = xs @ EvStoreCheck # ys @ EvAddDataset n # zs)"
    using s sorted_stage_between [of _ EvStoreCheck _ "EvAddDataset _"] by fastforce
  moreover have "\<not> (\<exists>xs ys zs d n. evs = xs @ EvStoreCheck # ys @ EvAddPlugin d n # zs)"
    using s sorted_stage_between [of _ EvStoreCheck _ "EvAddPlugin _ _"] by fastforce
  moreover have "\<not> (\<exists>xs ys zs n. evs = xs @ EvBootstrapUnihan # ys @ EvAddDataset n # zs)"
    using s sorted_stage_between [of _ EvBootstrapUnihan _ "EvAddDataset _"] by fastforce
  moreover have "\<not> (\<exists>xs ys zs d n. evs = xs @ EvBootstrapUnihan # ys @ EvAddPlugin d n # zs)"
    using s sorted_stage_between [of _ EvBootstrapUnihan _ "EvAddPlugin _ _"] by fastforce
  ultimately show ?thesis using evs s by blast
qed

text \<open>
  The order first claimed, with the store ensured before the datasets and plugins are
  loaded, is not the order of the code: in this run the dataset and its plugin are
  loaded by the constructor, and the store is checked only afterwards.
\<close>

theorem C3_invocation_order_counterexample:
  "trace (snd (invoke_info example_env None ''info'' ''A'' empty_world)) =
     [EvSetupLogger, EvMergeConfig, EvExpandConfig, EvDatabase,
      EvAddDataset ''unihan'', EvAddPlugin ''unihan'' ''variants'', EvStoreCheck]"
  by code_simp

section \<open>The store check of the command group\<close>

text \<open>
  C2.  On the application object that \<^verbatim>\<open>Cihai()\<close> builds from the default configuration,
  the group callback fails at \<^verbatim>\<open>c.is_bootstrapped\<close>: the class defines no such attribute.
  The bootstrap is therefore not invoked, whether or not the store is present.
\<close>

theorem C2_cli_store_check_fails:
  "cli example_env None ''info'' empty_world =
     (Some (AttributeError ''Cihai'' ''is_bootstrapped''),
      snd (cli example_env None ''info'' empty_world)) \<and>
   trace (snd (cli example_env None ''info'' empty_world)) =
     [EvSetupLogger, EvMergeConfig, EvExpandConfig, EvDatabase,
      EvAddDataset ''unihan'', EvAddPlugin ''unihan'' ''variants'', EvStoreCheck]"
  by code_simp

text \<open>
  The same holds for every configuration.  An object that the constructor has built
  carries, besides \<^verbatim>\<open>config\<close> and \<^verbatim>\<open>sql\<close>, only attributes that refer to dataset
  instances.
\<close>

lemma bootstrap_datasets_values:
  assumes "bootstrap_datasets e w = (None, w')"
  shows "map_of (attrs w') name = map_of (attrs w) name \<or>
         (\<exists>ref. map_of (attrs w') name = Some (VInst ref))"
proof -
  from assms obtain dv where dv: "self_config_get e w ''datasets'' = Inr dv"
    by (cases "self_config_get e w ''datasets''") (simp_all add: bootstrap_datasets_def)
  with assms obtain ds where ds: "cfg_items dv = Inr ds"
    by (cases "cfg_items dv") (simp_all add: bootstrap_datasets_def)
  with assms dv have "load_datasets e ds w = (None, w')"
    by (simp add: bootstrap_datasets_def)
  then show ?thesis by (rule load_datasets_values)
qed

lemma Cihai_init_values:
  assumes "Cihai_init e config unihan w = (None, w')"
    and "name \<noteq> ''config''" and "name \<noteq> ''sql''"
  shows "map_of (attrs w') name = None \<or> (\<exists>ref. map_of (attrs w') name = Some (VInst ref))"
proof -
  define c1 where "c1 = expand_config e (Cihai_config e config unihan)"
  define pre where "pre = [EvMergeConfig, EvExpandConfig] @
     (if user_data_dir_exists e then [] else [EvMakedirs])"
  define w3 where "w3 = w\<lparr>attrs := [(''config'', VCfg c1)], trace := trace w @ pre\<rparr>"
  have init: "Cihai_init e config unihan w =
     (case Database e c1 of
        Inl msg \<Rightarrow> (Some (ExternalError msg), w3)
      | Inr d \<Rightarrow> bootstrap e (emit EvDatabase (w3\<lparr>attrs := AList.update ''sql'' (VDb d) (attrs w3)\<rparr>)))"
    by (simp add: Cihai_init_def Let_def emit_def c1_def w3_def pre_def split: sum.splits)
  with assms(1) obtain d where d: "Database e c1 = Inr d"
    by (cases "Database e c1") simp_all
  define w4 where "w4 = emit EvDatabase (w3\<lparr>attrs := AList.update ''sql'' (VDb d) (attrs w3)\<rparr>)"
  from init d assms(1) have b: "bootstrap e w4 = (None, w')" by (simp add: w4_def)
  have a4: "map_of (attrs w4) name = None"
    using assms(2,3) by (simp add: w4_def w3_def emit_def)
  obtain r1 w1 where bd: "bootstrap_datasets e w4 = (r1, w1)"
    by (cases "bootstrap_datasets e w4")
  with b have r1: "r1 = None" and bp: "bootstrap_plugins e w1 = (None, w')"
    by (cases r1; simp add: bootstrap_def)+
  from bootstrap_datasets_values [OF bd [unfolded r1], of name] a4
  have "map_of (attrs w1) name = None \<or> (\<exists>ref. map_of (attrs w1) name = Some (VInst ref))"
    by simp
  with bootstrap_plugins_effect [OF bp] show ?thesis by simp
qed

lemma from_file_values:
  assumes "from_file e config_path w = (None, w')"
    and "name \<noteq> ''config''" and "name \<noteq> ''sql''"
  shows "map_of (attrs w') name = None \<or> (\<exists>ref. map_of (attrs w') name = Some (VInst ref))"
proof -
  have "\<exists>c w0. Cihai_init e c True w0 = (None, w')"
  proof (cases config_path)
    case None
    with assms(1) show ?thesis by (auto simp add: from_file_def)
  next
    case (Some p)
    show ?thesis
    proof (cases "p = []")
      case True
      with Some assms(1) show ?thesis by (auto simp add: from_file_def)
    next
      case False
      with Some assms(1) have ok: "path_exists e p"
        "list_ex (\<lambda>ext. suffix ext p) config_extensions"
        by (auto simp add: from_file_def split: if_splits)
      with Some False assms(1) obtain custom where "import_config e p = Inr custom"
        by (cases "import_config e p") (simp_all add: from_file_def)
      with Some False ok assms(1) show ?thesis by (auto simp add: from_file_def)
    qed
  qed
  then obtain c w0 where "Cihai_init e c True w0 = (None, w')" by blast
  from Cihai_init_values [OF this assms(2,3)] show ?thesis .
qed

text \<open>
  So on every object that \<^verbatim>\<open>cli\<close> constructs, lines 33--39 either raise the attribute
  error or, when a dataset happens to be attached under the name \<^verbatim>\<open>is_bootstrapped\<close>,
  take that instance for a true flag; the bootstrap is never reached.
\<close>

lemma cli_store_on_built_object:
  assumes "map_of (attrs w) ''is_bootstrapped'' = None \<or>
           (\<exists>ref. map_of (attrs w) ''is_bootstrapped'' = Some (VInst ref))"
  shows "cli_store e w = (Some (AttributeError ''Cihai'' ''is_bootstrapped''), emit EvStoreCheck w) \<or>
         cli_store e w = (None, emit EvStoreCheck w)"
proof -
  have g: "py_getattr e (emit EvStoreCheck w) ''is_bootstrapped''
             = map_of (attrs w) ''is_bootstrapped''"
    by (simp add: py_getattr_def class_attrs_def emit_def split: option.splits)
  from assms show ?thesis
  proof
    assume "map_of (attrs w) ''is_bootstrapped'' = None"
    with g show ?thesis by (simp add: cli_store_def Let_def)
  next
    assume "\<exists>ref. map_of (attrs w) ''is_bootstrapped'' = Some (VInst ref)"
    then obtain ref where "map_of (attrs w) ''is_bootstrapped'' = Some (VInst ref)" by blast
    with g show ?thesis by (simp add: cli_store_def Let_def)
  qed
qed

lemma cli_never_bootstraps:
  "\<exists>evs. trace (snd (cli e config log_level w)) = trace w @ evs \<and> staged 0 8 evs"
proof -
  have unchanged: ?thesis if "snd (cli e config log_level w) = w"
    using that by (intro exI [of _ "[]"]) simp
  show ?thesis
  proof (cases "case config of None \<Rightarrow> False | Some p \<Rightarrow> \<not> path_exists e p")
    case True
    then have "snd (cli e config log_level w) = w" by (simp add: cli_def)
    then show ?thesis by (rule unchanged)
  next
    case False
    show ?thesis
    proof (cases "setup_logger (root_logger w) None (upper log_level)")
      case (Inl err)
      with False have "snd (cli e config log_level w) = w" by (simp add: cli_def)
      then show ?thesis by (rule unchanged)
    next
      case (Inr l)
      define w1 where "w1 = emit EvSetupLogger (w\<lparr>root_logger := l\<rparr>)"
      define built where "built =
        (if config \<noteq> None \<and> config \<noteq> Some [] then from_file e config w1
         else Cihai_init e None True w1)"
      have t1: "trace w1 = trace w @ [EvSetupLogger]" by (simp add: w1_def emit_def)
      have "\<exists>evs. trace (snd built) = trace w1 @ evs \<and> staged 1 7 evs"
        using from_file_staged [of e config w1] Cihai_init_staged [of e None True w1]
          staged_widen [of 2 7 _ 1 7]
        by (auto simp add: built_def)
      then obtain ev2 where ev2: "trace (snd built) = trace w1 @ ev2" "staged 1 7 ev2" by blast
      have s12: "staged 0 7 ([EvSetupLogger] @ ev2)"
        by (rule staged_append [OF staged_single [of 0 _ 0] ev2(2)]) simp_all
      obtain r2 w2 where b: "built = (r2, w2)" by (cases built)
      have c: "cli e config log_level w =
          (case built of (Some err, w2) \<Rightarrow> (Some err, w2) | (None, w2) \<Rightarrow> cli_store e w2)"
        using False Inr by (simp add: cli_def Let_def w1_def built_def)
      show ?thesis
      proof (cases r2)
        case (Some err)
        with b c have "snd (cli e config log_level w) = w2" by simp
        with b ev2(1) t1 s12 staged_widen [of 0 7 _ 0 8] show ?thesis by auto
      next
        case None
        with b have "map_of (attrs w2) ''is_bootstrapped'' = None \<or>
            (\<exists>ref. map_of (attrs w2) ''is_bootstrapped'' = Some (VInst ref))"
          using from_file_values [of e config w1 w2 "''is_bootstrapped''"]
            Cihai_init_values [of e None True w1 w2 "''is_bootstrapped''"]
          by (auto simp add: built_def split: if_splits)
        from cli_store_on_built_object [OF this, of e] None b c
        have "snd (cli e config log_level w) = emit EvStoreCheck w2" by auto
        then have t: "trace (snd (cli e config log_level w))
            = trace w @ ([EvSetupLogger] @ ev2) @ [EvStoreCheck]"
          using b ev2(1) t1 by (simp add: emit_def)
        have "staged 0 8 (([EvSetupLogger] @ ev2) @ [EvStoreCheck])"
          by (rule staged_append [OF s12 staged_single [of 8 _ 8]]) simp_all
        with t show ?thesis by blast
      qed
    qed
  qed
qed


lemma cli_bootstrap_unreachable:
  assumes "EvBootstrapUnihan \<notin> set (trace w)"
  shows "EvBootstrapUnihan \<notin> set (trace (snd (cli e config log_level w)))"
proof -
  from cli_never_bootstraps [of e config log_level w] obtain evs where
    t: "trace (snd (cli e config log_level w)) = trace w @ evs" and s: "staged 0 8 evs"
    by blast
  have "EvBootstrapUnihan \<notin> set evs"
  proof
    assume "EvBootstrapUnihan \<in> set evs"
    with s have "stage EvBootstrapUnihan \<le> 8" by (auto simp add: staged_def)
    then show False by simp
  qed
  with assms t show ?thesis by simp
qed

end
